theory Spec2Isabelle
  imports Complex_Main "HOL-Library.Word"
begin

unbundle bit_operations_syntax

chapter \<open>The qaac sinks and the FLAC source: embedding\<close>

section \<open>Bytes, memory and errors\<close>

type_synonym byte = "8 word"

text \<open>
  Every \<open>throw std::runtime_error(msg)\<close> of the source is the value \<open>RuntimeError msg\<close>.
  \<open>OutOfRange\<close> is the bit reader running past the end of its buffer.
  \<open>ReadOutOfBounds\<close> is no exception of the program: it stands for a read outside a
  vector that nothing guards (undefined behaviour; through a null pointer when the vector is
  empty), after which nothing is known of the run.
\<close>

datatype error = RuntimeError string | OutOfRange | ReadOutOfBounds

text \<open>A C string literal as the bytes \<open>memcmp\<close> compares.\<close>

definition bytes_of :: "string \<Rightarrow> byte list" where
  "bytes_of s = map of_char s"

text \<open>
  The cookie parsers read through raw pointers (\<open>memcmp\<close>, \<open>memcpy\<close>) with no check
  against the vector's size. A read at an offset inside the vector gives the vector's byte; a
  read past its end gives whatever the memory after it holds, which the model takes as the
  parameter \<open>beyond\<close> (offset 0 of \<open>beyond\<close> is the first byte after the vector).
\<close>

definition peek :: "byte list \<Rightarrow> (nat \<Rightarrow> byte) \<Rightarrow> nat \<Rightarrow> byte" where
  "peek buf beyond i = (if i < length buf then buf ! i else beyond (i - length buf))"

definition memread :: "byte list \<Rightarrow> (nat \<Rightarrow> byte) \<Rightarrow> nat \<Rightarrow> nat \<Rightarrow> byte list" where
  "memread buf beyond p n = map (peek buf beyond) [p..<p + n]"

text \<open>A memory after the vector that holds zeroes, for concrete runs.\<close>

definition mem_zero :: "nat \<Rightarrow> byte" where
  "mem_zero i = 0"

section \<open>The container file and the sink base\<close>

text \<open>
  The container library (mp4v2's file object) is outside the repository. The model keeps
  the calls a sink makes on it, oldest first, and the values the sink reads back from it:
  the sample count and the duration of the track, and whether \<open>Close\<close> raises the
  library's exception (with its message).
\<close>

datatype mp4_op =
    Create string
  | CreateTemp string
  | Close
  | AddAlacAudioTrack "byte list" "byte list option"
  | SetMetadataTrack int int
  | SetMetadataDisk int int
  | AddTrackEdit
  | SetTrackEditMediaStart "32 word"
  | SetTrackEditDuration "64 word"
  | CreateAudioSampleGroupDescription "32 word"

record MP4FileX =
  calls :: "mp4_op list"
  trackNumberOfSamples :: "32 word"
  trackDuration :: "64 word"
  closeRaises :: "string option"

definition mp4_call :: "mp4_op \<Rightarrow> MP4FileX \<Rightarrow> MP4FileX" where
  "mp4_call c f = f\<lparr>calls := calls f @ [c]\<rparr>"

record MP4SinkBase =
  m_filename :: string
  m_mp4file :: MP4FileX
  m_closed :: bool
  m_edit_start :: "32 word"
  m_edit_duration :: "64 word"
  m_tags :: "string \<rightharpoonup> string"

text \<open>
  The constructor \<open>MP4SinkBase::MP4SinkBase(path, temp)\<close>: the file name, the flag and the
  two edit counters as the initialiser list sets them, and the file created on the library.
\<close>

definition MP4SinkBase_new :: "string \<Rightarrow> bool \<Rightarrow> MP4SinkBase" where
  "MP4SinkBase_new path temp =
     (let filename = (if temp then ''qaac.int'' else path) in
      \<lparr>m_filename = filename,
       m_mp4file = \<lparr>calls = [if temp then CreateTemp filename else Create filename],
                    trackNumberOfSamples = 0, trackDuration = 0, closeRaises = None\<rparr>,
       m_closed = False, m_edit_start = 0, m_edit_duration = 0, m_tags = Map.empty\<rparr>)"

section \<open>The ALAC cookie\<close>

text \<open>
  \<open>parseMagicCookieALAC(cookie, alac, chan)\<close>. \<open>cp\<close> and \<open>endp\<close> are offsets from the start
  of the vector; \<open>endp - cp\<close> is the signed pointer difference. \<open>resize\<close> followed by
  \<open>memcpy\<close> of the same length replaces the whole output vector.

  The first \<open>memcmp\<close> reads the bytes [4:12] of the cookie before any size is tested. On a
  cookie of fewer than 12 bytes it reads outside the vector: the run is \<open>ReadOutOfBounds\<close>.
  From 12 bytes on every read of the function is guarded by a test of \<open>endp - cp\<close>.
\<close>

definition parseMagicCookieALAC ::
  "(nat \<Rightarrow> byte) \<Rightarrow> byte list \<Rightarrow> byte list \<Rightarrow> byte list
     \<Rightarrow> error + (byte list \<times> byte list)" where
  "parseMagicCookieALAC beyond cookie alac chan =
     (if length cookie < 12 then Inl ReadOutOfBounds
      else
        let endp = length cookie;
            cp = (if memread cookie beyond 4 8 = bytes_of ''frmaalac'' then 24 else 0)
        in if int endp - int cp \<ge> 24 then
             let alac' = memread cookie beyond cp 24;
                 cp' = cp + 24
             in if int endp - int cp' \<ge> 24 \<and> memread cookie beyond (cp' + 4) 4 = bytes_of ''chan''
                then Inr (alac', memread cookie beyond (cp' + 12) 12)
                else Inr (alac', chan)
           else Inr (alac, chan))"


section \<open>Closing the sink\<close>

text \<open>
  Modelled from the spec: \<open>handle_mp4error\<close> is not in the sources; a container-store
  error is "translated into the process's standard error-reporting path and is fatal", so
  the library's exception becomes a \<open>RuntimeError\<close> with the exception's message.
\<close>

definition handle_mp4error :: "string \<Rightarrow> error" where
  "handle_mp4error msg = RuntimeError msg"

text \<open>
  \<open>MP4SinkBase::close()\<close>. An exception leaves the object changed, so the result is the
  error raised (if any) together with the sink after the call. \<open>m_closed\<close> is set before
  the library's \<open>Close\<close> is called.
\<close>

definition MP4SinkBase_close ::
  "'a MP4SinkBase_scheme \<Rightarrow> error option \<times> 'a MP4SinkBase_scheme" where
  "MP4SinkBase_close s =
     (if \<not> m_closed s then
        let s1 = s\<lparr>m_closed := True\<rparr>;
            s2 = s1\<lparr>m_mp4file := mp4_call Close (m_mp4file s1)\<rparr>
        in (case closeRaises (m_mp4file s1) of
              None \<Rightarrow> (None, s2)
            | Some msg \<Rightarrow> (Some (handle_mp4error msg), s2))
      else (None, s))"

section \<open>Track and disk tags\<close>

text \<open>
  The C library's \<open>sscanf\<close> with the format \<open>"%d/%d"\<close>. \<open>c_str\<close> ends the string at its
  first NUL. \<open>%d\<close> skips white space, takes an optional sign and then decimal digits, at
  least one; the \<open>/\<close> of the format must be the next character. The model takes the two
  variables as they are before the call and gives the return value and the two variables
  after it: a variable whose conversion did not happen keeps its value. The return value is
  the number of conversions stored, or \<open>EOF\<close> (-1) when the input ends before the first one.

  The converted number is stored into an \<open>int\<close> of 32 bits. \<open>store_int\<close> is what that
  variable holds afterwards: the C library converts the digits as a 64-bit integer, which
  stops at the ends of that range, and stores its low 32 bits, read as a signed number. A
  numeral inside the range of \<open>int\<close> is stored as it is; \<open>99999999999\<close> is stored as
  1215752191.
\<close>

definition c_str :: "string \<Rightarrow> string" where
  "c_str s = takeWhile (\<lambda>c. c \<noteq> CHR 0x00) s"

definition isspace :: "char \<Rightarrow> bool" where
  "isspace c = (c \<in> set [CHR '' '', CHR 0x09, CHR 0x0A, CHR 0x0B, CHR 0x0C, CHR 0x0D])"

definition isdigit :: "char \<Rightarrow> bool" where
  "isdigit c = (48 \<le> (of_char c :: nat) \<and> (of_char c :: nat) \<le> 57)"

definition digits_value :: "string \<Rightarrow> int" where
  "digits_value ds = foldl (\<lambda>a c. 10 * a + (int (of_char c) - 48)) 0 ds"

definition store_int :: "int \<Rightarrow> int" where
  "store_int v = sint (word_of_int (max (- (2 ^ 63)) (min (2 ^ 63 - 1) v)) :: 32 word)"

definition scan_d :: "string \<Rightarrow> (int \<times> string) option" where
  "scan_d s =
     (let s1 = dropWhile isspace s;
          neg = (s1 \<noteq> [] \<and> hd s1 = CHR ''-'');
          s2 = (if s1 \<noteq> [] \<and> (hd s1 = CHR ''-'' \<or> hd s1 = CHR ''+'') then tl s1 else s1);
          ds = takeWhile isdigit s2
      in if ds = [] then None
         else Some (store_int (if neg then - digits_value ds else digits_value ds),
                    dropWhile isdigit s2))"

definition sscanf_d_slash_d :: "string \<Rightarrow> int \<Rightarrow> int \<Rightarrow> int \<times> int \<times> int" where
  "sscanf_d_slash_d s n tot =
     (case scan_d s of
        None \<Rightarrow> (if dropWhile isspace s = [] then - 1 else 0, n, tot)
      | Some (n', r) \<Rightarrow>
          if r \<noteq> [] \<and> hd r = CHR ''/'' then
            (case scan_d (tl r) of
               None \<Rightarrow> (1, n', tot)
             | Some (tot', _) \<Rightarrow> (2, n', tot'))
          else (1, n', tot))"

text \<open>
  \<open>MP4SinkBase::writeTrackTag\<close> and \<open>writeDiskTag\<close>. \<open>int n, total = 0;\<close> leaves \<open>n\<close>
  with no initial value: \<open>n0\<close> is whatever it holds. \<open>tot\<close> is the source's \<open>total\<close>.
\<close>

definition writeTrackTag ::
  "int \<Rightarrow> string \<Rightarrow> string \<Rightarrow> 'a MP4SinkBase_scheme \<Rightarrow> 'a MP4SinkBase_scheme" where
  "writeTrackTag n0 fcc value s =
     (case sscanf_d_slash_d (c_str value) n0 0 of
        (r, n, tot) \<Rightarrow>
          if r > 0 then s\<lparr>m_mp4file := mp4_call (SetMetadataTrack n tot) (m_mp4file s)\<rparr>
          else s)"

definition writeDiskTag ::
  "int \<Rightarrow> string \<Rightarrow> string \<Rightarrow> 'a MP4SinkBase_scheme \<Rightarrow> 'a MP4SinkBase_scheme" where
  "writeDiskTag n0 fcc value s =
     (case sscanf_d_slash_d (c_str value) n0 0 of
        (r, n, tot) \<Rightarrow>
          if r > 0 then s\<lparr>m_mp4file := mp4_call (SetMetadataDisk n tot) (m_mp4file s)\<rparr>
          else s)"

section \<open>Gapless metadata of the AAC sink\<close>

text \<open>
  \<open>MP4Sink\<close> extends the base with the gapless mode. The declarations the sink's header
  gives are not in the sources and are parameters of the model: the two mode bits, the
  template of the \<open>iTunSMPB\<close> value, and \<open>strutil::format\<close>, which renders the template
  with the four arguments passed to it.
\<close>

record MP4Sink = MP4SinkBase +
  m_gapless_mode :: "32 word"

record sink_decls =
  MODE_ITUNSMPB :: "32 word"
  MODE_EDTS :: "32 word"
  iTunSMPB_template :: string
  format :: "string \<Rightarrow> 32 word list \<Rightarrow> string"

text \<open>
  The block \<open>if (nframes) { ... }\<close> of \<open>MP4Sink::writeTags()\<close>. The track's sample count
  and duration are read from the container; the subtraction is done on 64 bits and cut to
  32; the edit calls go to the container in the order of the source.
\<close>

definition MP4Sink_gapless :: "sink_decls \<Rightarrow> MP4Sink \<Rightarrow> MP4Sink" where
  "MP4Sink_gapless D s =
     (let nframes = trackNumberOfSamples (m_mp4file s) in
      if nframes \<noteq> 0 then
        let duration = trackDuration (m_mp4file s);
            s1 = (if m_gapless_mode s AND MODE_ITUNSMPB D \<noteq> 0 then
                    s\<lparr>m_tags := (m_tags s)(''iTunSMPB'' \<mapsto>
                         format D (iTunSMPB_template D)
                           [m_edit_start s,
                            ucast (duration - ucast (m_edit_start s) - m_edit_duration s),
                            ucast (drop_bit 32 (m_edit_duration s)),
                            ucast (m_edit_duration s AND 0xffffffff)])\<rparr>
                  else s)
        in if m_gapless_mode s AND MODE_EDTS D \<noteq> 0 then
             s1\<lparr>m_mp4file :=
                  mp4_call (CreateAudioSampleGroupDescription nframes)
                    (mp4_call (SetTrackEditDuration (m_edit_duration s))
                      (mp4_call (SetTrackEditMediaStart (m_edit_start s))
                        (mp4_call AddTrackEdit (m_mp4file s1))))\<rparr>
           else s1
      else s)"

text \<open>
  \<open>MP4Sink::writeTags()\<close>: the block above, then \<open>MP4SinkBase::writeTags()\<close>. The base's
  writer turns the tag dictionary and the chapters into container calls through
  \<open>M4A::convertToM4ATags\<close> (not in the sources) and floating-point chapter times; it is the
  parameter \<open>base_writeTags\<close>, applied to the sink the block leaves.
\<close>

definition MP4Sink_writeTags ::
  "sink_decls \<Rightarrow> (MP4Sink \<Rightarrow> error option \<times> MP4Sink) \<Rightarrow> MP4Sink \<Rightarrow> error option \<times> MP4Sink" where
  "MP4Sink_writeTags D base_writeTags s = base_writeTags (MP4Sink_gapless D s)"

section \<open>The AAC cookie: descriptor headers\<close>











section \<open>The bit reader and the codec config\<close>

text \<open>
  Modelled from the spec: the class \<open>BitStream\<close> (\<open>bitstream.h\<close>) is not in the sources.
  The spec's bit reader is a "sequential, MSB-first bit extraction over a byte buffer":
  \<open>get(n)\<close> "returns the next n bits (1-32) as an unsigned integer, MSB-first, advancing an
  internal bit cursor"; reading past the end of the buffer "fails with an out-of-range error".
  The bits of the buffer are the bits of its bytes in order, each byte from bit 7 down to
  bit 0; the value of a run of bits has its first bit as the most significant one.
\<close>

record BitStream =
  bs_buf :: "byte list"
  bs_pos :: nat

definition BitStream_new :: "byte list \<Rightarrow> BitStream" where
  "BitStream_new buf = \<lparr>bs_buf = buf, bs_pos = 0\<rparr>"

definition byte_bits :: "byte \<Rightarrow> bool list" where
  "byte_bits b = map (bit b) [7, 6, 5, 4, 3, 2, 1, 0]"

definition bits_value :: "bool list \<Rightarrow> nat" where
  "bits_value bs = foldl (\<lambda>v x. 2 * v + of_bool x) 0 bs"

definition BitStream_get :: "BitStream \<Rightarrow> nat \<Rightarrow> error + (32 word \<times> BitStream)" where
  "BitStream_get bs n =
     (if bs_pos bs + n \<le> 8 * length (bs_buf bs) then
        Inr (of_nat (bits_value (take n (drop (bs_pos bs) (concat (map byte_bits (bs_buf bs)))))),
             bs\<lparr>bs_pos := bs_pos bs + n\<rparr>)
      else Inl OutOfRange)"

text \<open>
  \<open>parseDecSpecificConfig(config, sampling_rate_index, sampling_rate, channel_config)\<close>;
  the result is the three outputs in this order. The table is the function's \<open>tab\<close>.
\<close>

definition tab :: "32 word list" where
  "tab = [96000, 88200, 64000, 48000, 44100, 32000, 24000, 22050,
          16000, 12000, 11025, 8000, 7350, 0, 0, 0]"

definition parseDecSpecificConfig :: "byte list \<Rightarrow> error + (32 word \<times> 32 word \<times> 32 word)" where
  "parseDecSpecificConfig config =
     (case BitStream_get (BitStream_new config) 5 of
        Inl e \<Rightarrow> Inl e
      | Inr (objtype, bs1) \<Rightarrow>
          (case BitStream_get bs1 4 of
             Inl e \<Rightarrow> Inl e
           | Inr (sampling_rate_index, bs2) \<Rightarrow>
               if sampling_rate_index = 15 then
                 (case BitStream_get bs2 24 of
                    Inl e \<Rightarrow> Inl e
                  | Inr (sampling_rate, bs3) \<Rightarrow>
                      (case BitStream_get bs3 4 of
                         Inl e \<Rightarrow> Inl e
                       | Inr (channel_config, bs4) \<Rightarrow>
                           Inr (sampling_rate_index, sampling_rate, channel_config)))
               else
                 (case BitStream_get bs2 4 of
                    Inl e \<Rightarrow> Inl e
                  | Inr (channel_config, bs3) \<Rightarrow>
                      Inr (sampling_rate_index, tab ! unat sampling_rate_index, channel_config))))"

section \<open>The FLAC source\<close>

text \<open>
  The frame the decoder hands to the write callback: the header fields the callback
  reads, and the decoded channels (\<open>buffer[n][i]\<close> is sample \<open>i\<close> of channel \<open>n\<close>; the
  arrays are the decoder's memory, so the model takes them as a function).
\<close>

record FLAC_FrameHeader =
  blocksize :: "32 word"
  sample_rate :: "32 word"
  channels :: "32 word"
  bits_per_sample :: "32 word"

record FLAC_Frame =
  header :: FLAC_FrameHeader
  buffer :: "nat \<Rightarrow> nat \<Rightarrow> 32 word"

text \<open>
  The fields of \<open>m_asbd\<close> the source reads. \<open>mSampleRate\<close> is a \<open>Float64\<close>; the frame's
  unsigned rate is converted to it exactly for the comparison.
\<close>

record AudioStreamBasicDescription =
  mSampleRate :: real
  mChannelsPerFrame :: "32 word"
  mBitsPerChannel :: "32 word"

text \<open>
  Modelled from the spec: the class of \<open>m_buffer\<close> is not in the sources. The spec's decoded
  sample buffer is an "accumulator of interleaved 32-bit-aligned PCM samples", "refilled on
  demand, drained by the caller", to which decoded samples are "appended". The model keeps
  the committed frames not yet read, each frame the interleaved samples of one sample time:
  \<open>count()\<close> is their number, \<open>read_ptr()\<close> points at their samples in order, \<open>advance(n)\<close>
  drops the first \<open>n\<close>, and \<open>resize(n)\<close>, writing through \<open>write_ptr()\<close> and \<open>commit(n)\<close> append
  \<open>n\<close> frames.
\<close>

record DecodeBuffer =
  db_channels :: "32 word"
  db_frames :: "32 word list list"

definition db_count :: "DecodeBuffer \<Rightarrow> 32 word" where
  "db_count b = of_nat (length (db_frames b))"

definition db_read :: "DecodeBuffer \<Rightarrow> 32 word list" where
  "db_read b = concat (db_frames b)"

definition db_advance :: "32 word \<Rightarrow> DecodeBuffer \<Rightarrow> DecodeBuffer" where
  "db_advance n b = b\<lparr>db_frames := drop (unat n) (db_frames b)\<rparr>"

definition db_commit :: "32 word list list \<Rightarrow> DecodeBuffer \<Rightarrow> DecodeBuffer" where
  "db_commit fs b = b\<lparr>db_frames := db_frames b @ fs\<rparr>"

text \<open>
  Modelled from the spec: the decoder library is outside the repository. By the spec's
  decoder contract a single decode step fires its callbacks and returns; the model keeps
  what the coming steps will deliver: a frame (the write callback is called; the step
  fails when the callback aborts), an error event (the error callback is called), or a
  fatal failure of the step itself. The decoder reports end of stream when nothing is left.
\<close>

datatype decode_step = FrameStep FLAC_Frame | ErrorStep | FailedStep

datatype StreamDecoderState = DECODER_READING | END_OF_STREAM

datatype StreamDecoderWriteStatus = WRITE_STATUS_CONTINUE | WRITE_STATUS_ABORT

record FLACSource =
  m_giveup :: bool
  m_asbd :: AudioStreamBasicDescription
  m_buffer :: DecodeBuffer
  m_pending :: "decode_step list"

text \<open>
  \<open>adjustSamplesToRead\<close> and \<open>addSamplesRead\<close> are members of the source's base class,
  which is not in the sources: they are parameters of the model.
\<close>

record 'a source_base =
  adjustSamplesToRead :: "'a FLACSource_scheme \<Rightarrow> nat \<Rightarrow> nat"
  addSamplesRead :: "nat \<Rightarrow> 'a FLACSource_scheme \<Rightarrow> 'a FLACSource_scheme"

text \<open>
  \<open>FLACSource::writeCallback(frame, buffer)\<close>. The samples are written frame by frame,
  channel by channel, each shifted left by \<open>shifts\<close> (in 32 bits; the source's shift is
  only defined below 32, which a frame that passed the comparison with a validated stream
  satisfies).
\<close>

definition writeCallback ::
  "FLAC_Frame \<Rightarrow> 'a FLACSource_scheme \<Rightarrow> StreamDecoderWriteStatus \<times> 'a FLACSource_scheme" where
  "writeCallback frame s =
     (let h = header frame in
      if channels h \<noteq> mChannelsPerFrame (m_asbd s)
         \<or> real (unat (sample_rate h)) \<noteq> mSampleRate (m_asbd s)
         \<or> bits_per_sample h \<noteq> mBitsPerChannel (m_asbd s)
      then (WRITE_STATUS_ABORT, s)
      else
        let shifts = 32 - bits_per_sample h;
            written = map (\<lambda>i. map (\<lambda>n. push_bit (unat shifts) (buffer frame n i))
                                   [0..<unat (channels h)])
                          [0..<unat (blocksize h)]
        in (WRITE_STATUS_CONTINUE, s\<lparr>m_buffer := db_commit written (m_buffer s)\<rparr>))"

definition errorCallback :: "'a FLACSource_scheme \<Rightarrow> 'a FLACSource_scheme" where
  "errorCallback s = s\<lparr>m_giveup := True\<rparr>"

definition stream_decoder_get_state :: "'a FLACSource_scheme \<Rightarrow> StreamDecoderState" where
  "stream_decoder_get_state s = (if m_pending s = [] then END_OF_STREAM else DECODER_READING)"

definition stream_decoder_process_single :: "'a FLACSource_scheme \<Rightarrow> bool \<times> 'a FLACSource_scheme" where
  "stream_decoder_process_single s =
     (case m_pending s of
        [] \<Rightarrow> (True, s)
      | FrameStep frame # steps \<Rightarrow>
          (case writeCallback frame (s\<lparr>m_pending := steps\<rparr>) of
             (WRITE_STATUS_CONTINUE, s') \<Rightarrow> (True, s')
           | (WRITE_STATUS_ABORT, s') \<Rightarrow> (False, s'))
      | ErrorStep # steps \<Rightarrow> (True, errorCallback (s\<lparr>m_pending := steps\<rparr>))
      | FailedStep # steps \<Rightarrow> (False, s\<lparr>m_pending := steps\<rparr>))"

text \<open>
  The first half of the loop body of \<open>readSamples\<close>: when the buffer holds frames, copy
  \<open>min(count, rest)\<close> of them to the caller's memory (\<open>bytes\<close> is computed in 32 bits)
  and advance. The result is the source, what is left to read, and the samples copied so far.
\<close>

definition readSamples_drain ::
  "'a FLACSource_scheme \<Rightarrow> 32 word \<Rightarrow> 32 word list
     \<Rightarrow> 'a FLACSource_scheme \<times> 32 word \<times> 32 word list" where
  "readSamples_drain s rest out =
     (if db_count (m_buffer s) > 0 then
        let count = min (db_count (m_buffer s)) rest;
            bytes = count * mChannelsPerFrame (m_asbd s) * 4
        in (s\<lparr>m_buffer := db_advance count (m_buffer s)\<rparr>,
            rest - count,
            out @ take (unat bytes div 4) (db_read (m_buffer s)))
      else (s, rest, out))"

lemma drain_pending: "m_pending (fst (readSamples_drain s rest out)) = m_pending s"
  by (simp add: readSamples_drain_def Let_def)

lemma writeCallback_pending: "m_pending (snd (writeCallback frame s)) = m_pending s"
  by (simp add: writeCallback_def Let_def)

lemma process_single_pending:
  assumes "m_pending s \<noteq> []"
  shows "length (m_pending (snd (stream_decoder_process_single s))) < length (m_pending s)"
proof (cases "m_pending s")
  case Nil
  then show ?thesis using assms by simp
next
  case (Cons step steps)
  show ?thesis
  proof (cases step)
    case (FrameStep frame)
    have "m_pending (snd (writeCallback frame (s\<lparr>m_pending := steps\<rparr>))) = steps"
      by (simp add: writeCallback_pending)
    then show ?thesis
      using Cons FrameStep
      by (auto simp add: stream_decoder_process_single_def
          split: prod.splits StreamDecoderWriteStatus.splits)
  next
    case ErrorStep
    then show ?thesis
      using Cons by (simp add: stream_decoder_process_single_def errorCallback_def)
  next
    case FailedStep
    then show ?thesis
      using Cons by (simp add: stream_decoder_process_single_def)
  qed
qed

text \<open>
  The \<open>while (rest > 0)\<close> loop of \<open>readSamples\<close>. When the first half leaves nothing to
  read the loop ends at its next test. \<open>TRYFL\<close> throws with the text of its argument.
\<close>

function readSamples_loop ::
  "'a FLACSource_scheme \<Rightarrow> 32 word \<Rightarrow> 32 word list
     \<Rightarrow> error + ('a FLACSource_scheme \<times> 32 word \<times> 32 word list)" where
  "readSamples_loop s rest out =
     (if rest > 0 then
        (case readSamples_drain s rest out of
           (s1, rest1, out1) \<Rightarrow>
             if rest1 \<noteq> 0 then
               if m_giveup s1 then Inl (RuntimeError ''FLAC decoder error'')
               else if stream_decoder_get_state s1 = END_OF_STREAM then Inr (s1, rest1, out1)
               else
                 (case stream_decoder_process_single s1 of
                    (ok, s2) \<Rightarrow>
                      if ok then readSamples_loop s2 rest1 out1
                      else Inl (RuntimeError
                        ''m_module.stream_decoder_process_single(m_decoder.get())''))
             else Inr (s1, rest1, out1))
      else Inr (s, rest, out))"
  by pat_completeness auto
termination readSamples_loop
proof (relation "measure (\<lambda>(s, rest, out). length (m_pending s))")
  show "wf (measure (\<lambda>(s :: 'a FLACSource_scheme, rest :: 32 word, out :: 32 word list).
      length (m_pending s)))"
    by simp
next
  fix s s1 s2 :: "'a FLACSource_scheme" and rest rest1 :: "32 word" and out out1 :: "32 word list"
    and y ok
  assume d: "(s1, y) = readSamples_drain s rest out"
    and ne: "stream_decoder_get_state s1 \<noteq> END_OF_STREAM"
    and p: "(ok, s2) = stream_decoder_process_single s1"
  have "m_pending s1 = m_pending s"
    using d drain_pending [of s rest out] by (metis fst_conv)
  moreover have "m_pending s1 \<noteq> []"
    using ne by (simp add: stream_decoder_get_state_def split: if_splits)
  moreover have "s2 = snd (stream_decoder_process_single s1)"
    using p by (metis snd_conv)
  ultimately show "((s2, rest1, out1), s, rest, out)
      \<in> measure (\<lambda>(s, rest, out). length (m_pending s))"
    using process_single_pending [of s1] by simp
qed

declare readSamples_loop.simps [simp del]

text \<open>
  \<open>FLACSource::readSamples(buffer, nsamples)\<close>. The result is the value returned, the
  samples copied to \<open>buffer\<close>, and the source after the call. \<open>uint32_t rest = nsamples\<close>
  keeps the low 32 bits of the count.
\<close>

definition readSamples ::
  "'a source_base \<Rightarrow> 'a FLACSource_scheme \<Rightarrow> nat
     \<Rightarrow> error + (nat \<times> 32 word list \<times> 'a FLACSource_scheme)" where
  "readSamples B s nsamples0 =
     (let nsamples = adjustSamplesToRead B s nsamples0 in
      if nsamples = 0 then Inr (0, [], s)
      else
        (case readSamples_loop s (of_nat nsamples) [] of
           Inl e \<Rightarrow> Inl e
         | Inr (s', rest, out) \<Rightarrow>
             let processed = nsamples - unat rest
             in Inr (processed, out, addSamplesRead B processed s')))"

text \<open>Concrete pieces for runs of the source: a base with no range set, and a ramp of samples.\<close>

definition whole_stream :: "unit source_base" where
  "whole_stream = \<lparr>adjustSamplesToRead = (\<lambda>s n. n), addSamplesRead = (\<lambda>n s. s)\<rparr>"

definition ramp :: "nat \<Rightarrow> nat \<Rightarrow> 32 word" where
  "ramp n i = of_nat (10 * i + n)"

chapter \<open>Properties\<close>

section \<open>Reading memory\<close>


lemma memread_in_range:
  assumes "p + n \<le> length buf"
  shows "memread buf beyond p n = take n (drop p buf)"
proof (rule nth_equalityI)
  show "length (memread buf beyond p n) = length (take n (drop p buf))"
    using assms by (simp add: memread_def)
next
  fix i
  assume "i < length (memread buf beyond p n)"
  then have "i < n" by (simp add: memread_def)
  then show "memread buf beyond p n ! i = take n (drop p buf) ! i"
    using assms by (simp add: memread_def peek_def)
qed

section \<open>The ALAC cookie splitter\<close>

lemma bytes_of_frmaalac: "bytes_of ''frmaalac'' = [0x66, 0x72, 0x6d, 0x61, 0x61, 0x6c, 0x61, 0x63]"
  by (simp add: bytes_of_def)

lemma bytes_of_chan: "bytes_of ''chan'' = [0x63, 0x68, 0x61, 0x6e]"
  by (simp add: bytes_of_def)


lemma alac_plain:
  assumes "length cookie = 24" "take 8 (drop 4 cookie) \<noteq> bytes_of ''frmaalac''"
  shows "parseMagicCookieALAC beyond cookie alac chan = Inr (cookie, chan)"
  using assms by (simp add: parseMagicCookieALAC_def memread_in_range)

lemma alac_with_chan:
  assumes "48 \<le> length cookie" "take 8 (drop 4 cookie) \<noteq> bytes_of ''frmaalac''"
    "take 4 (drop 28 cookie) = bytes_of ''chan''"
  shows "parseMagicCookieALAC beyond cookie alac chan
    = Inr (take 24 cookie, take 12 (drop 36 cookie))"
  using assms by (simp add: parseMagicCookieALAC_def memread_in_range)



lemma alac_no_chan:
  assumes "24 \<le> length cookie" "length cookie < 48" "take 8 (drop 4 cookie) \<noteq> bytes_of ''frmaalac''"
  shows "parseMagicCookieALAC beyond cookie alac chan = Inr (take 24 cookie, chan)"
  using assms by (simp add: parseMagicCookieALAC_def memread_in_range)



text \<open>From 12 bytes on no read leaves the vector: the memory behind it does not matter.\<close>

lemma alac_reads_inside:
  "parseMagicCookieALAC beyond cookie alac chan = parseMagicCookieALAC beyond' cookie alac chan"
proof (cases "length cookie < 12")
  case True
  then show ?thesis by (simp add: parseMagicCookieALAC_def)
next
  case False
  then have m: "memread cookie b 4 8 = take 8 (drop 4 cookie)" for b
    by (simp add: memread_in_range)
  show ?thesis
  proof (cases "take 8 (drop 4 cookie) = bytes_of ''frmaalac''")
    case wrapped: True
    show ?thesis
    proof (cases "72 \<le> length cookie")
      case True
      then show ?thesis
        using False wrapped
        by (simp add: parseMagicCookieALAC_def m memread_in_range Let_def)
    next
      case short: False
      then show ?thesis
        using False wrapped
        by (simp add: parseMagicCookieALAC_def m memread_in_range Let_def)
    qed
  next
    case plain: False
    show ?thesis
    proof (cases "48 \<le> length cookie")
      case True
      then show ?thesis
        using False plain
        by (simp add: parseMagicCookieALAC_def m memread_in_range Let_def)
    next
      case short: False
      then show ?thesis
        using False plain
        by (simp add: parseMagicCookieALAC_def m memread_in_range Let_def)
    qed
  qed
qed

text \<open>
  C2, as amended. A cookie of exactly 24 bytes with no \<open>frma/alac\<close> wrapper gives the 24
  bytes as the config and leaves the channel layout as it was (empty in the constructor).
  A channel layout is taken only from a cookie of at least 48 bytes (no wrapper) whose
  bytes [28:32] are the \<open>chan\<close> marker: then the config is bytes [0:24] and the channel
  layout is the 12 bytes [36:48]. A cookie of 24 to 47 bytes, so also one of 36 bytes,
  leaves the channel layout as it was.
\<close>

theorem parseMagicCookieALAC_split:
  "(length cookie = 24 \<and> take 8 (drop 4 cookie) \<noteq> bytes_of ''frmaalac''
      \<longrightarrow> parseMagicCookieALAC beyond cookie alac chan = Inr (cookie, chan))
   \<and> (48 \<le> length cookie \<and> take 8 (drop 4 cookie) \<noteq> bytes_of ''frmaalac''
        \<and> take 4 (drop 28 cookie) = bytes_of ''chan''
      \<longrightarrow> parseMagicCookieALAC beyond cookie alac chan
          = Inr (take 24 cookie, take 12 (drop 36 cookie)))
   \<and> (24 \<le> length cookie \<and> length cookie < 48 \<and> take 8 (drop 4 cookie) \<noteq> bytes_of ''frmaalac''
      \<longrightarrow> parseMagicCookieALAC beyond cookie alac chan = Inr (take 24 cookie, chan))"
  using alac_plain alac_with_chan alac_no_chan by blast

theorem parseMagicCookieALAC_split_witness:
  "parseMagicCookieALAC mem_zero (replicate 24 7) [] [] = Inr (replicate 24 7, [])
   \<and> parseMagicCookieALAC mem_zero
        (replicate 28 7 @ bytes_of ''chan'' @ replicate 4 0 @ [1, 2, 3, 4, 5, 6, 7, 8, 9, 10, 11, 12]) [] []
      = Inr (replicate 24 7, [1, 2, 3, 4, 5, 6, 7, 8, 9, 10, 11, 12])
   \<and> parseMagicCookieALAC mem_zero (replicate 30 7) [] [] = Inr (replicate 24 7, [])"
proof -
  let ?a = "replicate 24 7 :: byte list"
  let ?b = "replicate 28 7 @ bytes_of ''chan'' @ replicate 4 0 @ [1, 2, 3, 4, 5, 6, 7, 8, 9, 10, 11, 12 :: byte]"
  let ?c = "replicate 30 7 :: byte list"
  have a: "length ?a = 24 \<and> take 8 (drop 4 ?a) \<noteq> bytes_of ''frmaalac''"
    by code_simp
  have b: "48 \<le> length ?b \<and> take 8 (drop 4 ?b) \<noteq> bytes_of ''frmaalac''
      \<and> take 4 (drop 28 ?b) = bytes_of ''chan''"
    by code_simp
  have c: "24 \<le> length ?c \<and> length ?c < 48 \<and> take 8 (drop 4 ?c) \<noteq> bytes_of ''frmaalac''"
    by code_simp
  have ta: "take 24 ?a = ?a" by simp
  have tb: "take 24 ?b = ?a \<and> take 12 (drop 36 ?b) = [1, 2, 3, 4, 5, 6, 7, 8, 9, 10, 11, 12]"
    by code_simp
  have tc: "take 24 ?c = ?a" by code_simp
  show ?thesis
    using parseMagicCookieALAC_split [of ?a mem_zero "[]" "[]"]
      parseMagicCookieALAC_split [of ?b mem_zero "[]" "[]"]
      parseMagicCookieALAC_split [of ?c mem_zero "[]" "[]"] a b c ta tb tc
    by presburger
qed

text \<open>
  C2 as stated fails: a buffer of 36 bytes whose bytes [24:28] are the \<open>chan\<close> marker
  yields no channel layout (fewer than 24 bytes follow the config).
\<close>

theorem parseMagicCookieALAC_36_counterexample:
  "length (replicate 24 7 @ bytes_of ''chan'' @ replicate 8 (0 :: byte)) = 36
   \<and> take 4 (drop 24 (replicate 24 7 @ bytes_of ''chan'' @ replicate 8 (0 :: byte))) = bytes_of ''chan''
   \<and> parseMagicCookieALAC mem_zero (replicate 24 7 @ bytes_of ''chan'' @ replicate 8 0) [] []
       = Inr (replicate 24 7, [])"
  by code_simp

section \<open>The ALAC sink's constructor\<close>










section \<open>Closing the sink\<close>

lemma close_twice:
  "MP4SinkBase_close (snd (MP4SinkBase_close s)) = (None, snd (MP4SinkBase_close s))"
  by (simp add: MP4SinkBase_close_def Let_def split: option.splits)

lemma close_closed: "m_closed (snd (MP4SinkBase_close s))"
  by (simp add: MP4SinkBase_close_def Let_def split: option.splits)

lemma close_iter: "((snd \<circ> MP4SinkBase_close) ^^ Suc n) s = snd (MP4SinkBase_close s)"
proof (induction n)
  case 0
  show ?case by simp
next
  case (Suc n)
  have "((snd \<circ> MP4SinkBase_close) ^^ Suc (Suc n)) s
      = snd (MP4SinkBase_close (((snd \<circ> MP4SinkBase_close) ^^ Suc n) s))"
    by simp
  also have "\<dots> = snd (MP4SinkBase_close (snd (MP4SinkBase_close s)))"
    by (simp only: Suc.IH)
  also have "\<dots> = snd (MP4SinkBase_close s)"
    by (simp add: close_twice)
  finally show ?case .
qed

lemma close_calls:
  "calls (m_mp4file (snd (MP4SinkBase_close s)))
     = (if m_closed s then calls (m_mp4file s) else calls (m_mp4file s) @ [Close])"
  by (simp add: MP4SinkBase_close_def Let_def mp4_call_def split: option.splits)

text \<open>
  C9. \<open>close\<close> is idempotent. A second call right after a first raises nothing and
  returns the sink as the first call left it; so does any number of further calls; the sink
  is marked closed; and over any number of calls the container's \<open>Close\<close> is called once
  when the sink was open and never when it was already closed (also when \<open>Close\<close> raised).
\<close>

theorem MP4SinkBase_close_idempotent:
  "MP4SinkBase_close (snd (MP4SinkBase_close s)) = (None, snd (MP4SinkBase_close s))
   \<and> ((snd \<circ> MP4SinkBase_close) ^^ Suc n) s = snd (MP4SinkBase_close s)
   \<and> m_closed (snd (MP4SinkBase_close s))
   \<and> calls (m_mp4file (((snd \<circ> MP4SinkBase_close) ^^ Suc n) s))
       = (if m_closed s then calls (m_mp4file s) else calls (m_mp4file s) @ [Close])"
proof -
  have "calls (m_mp4file (((snd \<circ> MP4SinkBase_close) ^^ Suc n) s))
      = calls (m_mp4file (snd (MP4SinkBase_close s)))"
    by (simp only: close_iter)
  then show ?thesis
    using close_twice [of s] close_iter [of n s] close_closed [of s] close_calls [of s]
    by simp
qed

section \<open>Track and disk tags\<close>

lemma store_int_id:
  assumes "- (2 ^ 31) \<le> v" "v < 2 ^ 31"
  shows "store_int v = v"
proof -
  have "max (- (2 ^ 63)) (min (2 ^ 63 - 1) v) = v"
    using assms by simp
  moreover have "sint (word_of_int v :: 32 word) = v"
    using assms by (simp add: sint_sbintrunc' signed_take_bit_int_eq_self)
  ultimately show ?thesis
    by (simp add: store_int_def)
qed

lemma store_int_range: "- (2 ^ 31) \<le> store_int v \<and> store_int v < 2 ^ 31"
  using sint_ge [of "word_of_int (max (- (2 ^ 63)) (min (2 ^ 63 - 1) v)) :: 32 word"]
    sint_lt [of "word_of_int (max (- (2 ^ 63)) (min (2 ^ 63 - 1) v)) :: 32 word"]
  by (simp add: store_int_def)

lemma digits_fold_nonneg:
  assumes "\<forall>c \<in> set ds. isdigit c" "0 \<le> a"
  shows "0 \<le> foldl (\<lambda>a c. 10 * a + (int (of_char c) - 48)) a ds"
  using assms
proof (induction ds arbitrary: a)
  case Nil
  then show ?case by simp
next
  case (Cons c ds)
  have "0 \<le> 10 * a + (int (of_char c) - 48)"
    using Cons.prems by (simp add: isdigit_def)
  then show ?case
    using Cons by simp
qed

lemma digits_value_nonneg:
  assumes "\<forall>c \<in> set ds. isdigit c"
  shows "0 \<le> digits_value ds"
  using digits_fold_nonneg [OF assms, of 0] by (simp add: digits_value_def)

lemma digit_plain:
  assumes "isdigit c"
  shows "\<not> isspace c" "c \<noteq> CHR ''-''" "c \<noteq> CHR ''+''" "c \<noteq> CHR ''/''" "c \<noteq> CHR 0x00"
  using assms by (auto simp add: isdigit_def isspace_def)

lemma scan_d_digits:
  assumes "ds \<noteq> []" "\<forall>c \<in> set ds. isdigit c" "r = [] \<or> \<not> isdigit (hd r)"
  shows "scan_d (ds @ r) = Some (store_int (digits_value ds), r)"
proof -
  obtain d ds' where ds: "ds = d # ds'"
    using assms(1) by (cases ds) auto
  have d: "isdigit d"
    using assms(2) ds by simp
  have sp: "dropWhile isspace (ds @ r) = ds @ r"
    using digit_plain(1) [OF d] ds by simp
  have hd: "hd (ds @ r) = d"
    using ds by simp
  have tw: "takeWhile isdigit r = []" "dropWhile isdigit r = r"
    using assms(3) by (cases r; simp)+
  have t: "takeWhile isdigit (ds @ r) = ds" "dropWhile isdigit (ds @ r) = r"
    using assms(2) tw by simp_all
  show ?thesis
    using sp hd t assms(1) digit_plain(2,3) [OF d]
    by (simp add: scan_d_def Let_def)
qed

lemma c_str_plain:
  assumes "\<forall>c \<in> set v. c \<noteq> CHR 0x00"
  shows "c_str v = v"
  using assms by (simp add: c_str_def)

lemma scan_number:
  assumes "ds \<noteq> []" "\<forall>c \<in> set ds. isdigit c"
  shows "sscanf_d_slash_d (c_str ds) n0 t0 = (1, store_int (digits_value ds), t0)"
proof -
  have c: "c_str ds = ds"
    using assms(2) digit_plain(5) by (intro c_str_plain) blast
  have "scan_d (ds @ []) = Some (store_int (digits_value ds), [])"
    using assms by (intro scan_d_digits) simp_all
  then show ?thesis
    using c by (simp add: sscanf_d_slash_d_def)
qed

lemma scan_pair:
  assumes "ds \<noteq> []" "\<forall>c \<in> set ds. isdigit c" "es \<noteq> []" "\<forall>c \<in> set es. isdigit c"
  shows "sscanf_d_slash_d (c_str (ds @ ''/'' @ es)) n0 t0
           = (2, store_int (digits_value ds), store_int (digits_value es))"
proof -
  have c: "c_str (ds @ ''/'' @ es) = ds @ ''/'' @ es"
    using assms(2,4) digit_plain(5) by (intro c_str_plain) auto
  have "\<not> isdigit CHR ''/''"
    by (simp add: isdigit_def)
  then have a: "scan_d (ds @ (''/'' @ es)) = Some (store_int (digits_value ds), ''/'' @ es)"
    using assms(1,2) by (intro scan_d_digits) simp_all
  have b: "scan_d (es @ []) = Some (store_int (digits_value es), [])"
    using assms(3,4) by (intro scan_d_digits) simp_all
  show ?thesis
    using a b c by (simp add: sscanf_d_slash_d_def)
qed

lemma scan_none:
  assumes "scan_d (c_str v) = None"
  shows "fst (sscanf_d_slash_d (c_str v) n0 t0) \<le> 0"
  using assms by (simp add: sscanf_d_slash_d_def)

lemma scan_first_only:
  assumes "scan_d (c_str v) = Some (n, r)" "r = [] \<or> hd r \<noteq> CHR ''/'' \<or> scan_d (tl r) = None"
  shows "sscanf_d_slash_d (c_str v) n0 t0 = (1, n, t0)"
  using assms by (auto simp add: sscanf_d_slash_d_def)

lemma scan_d_range:
  assumes "scan_d v = Some (n, r)"
  shows "- (2 ^ 31) \<le> n \<and> n < 2 ^ 31"
  using assms store_int_range
  by (auto simp add: scan_d_def Let_def split: if_splits)

lemma tag_none:
  assumes "scan_d (c_str v) = None"
  shows "writeTrackTag n0 fcc v s = s" "writeDiskTag n0 fcc v s = s"
  using scan_none [OF assms, of n0 0]
  by (auto simp add: writeTrackTag_def writeDiskTag_def split: prod.splits)

lemma tag_written:
  assumes "sscanf_d_slash_d (c_str v) n0 0 = (k, n, t)" "0 < k"
  shows "writeTrackTag n0 fcc v s
           = s\<lparr>m_mp4file := (m_mp4file s)\<lparr>calls := calls (m_mp4file s) @ [SetMetadataTrack n t]\<rparr>\<rparr>"
    "writeDiskTag n0 fcc v s
           = s\<lparr>m_mp4file := (m_mp4file s)\<lparr>calls := calls (m_mp4file s) @ [SetMetadataDisk n t]\<rparr>\<rparr>"
  using assms by (simp_all add: writeTrackTag_def writeDiskTag_def mp4_call_def)

lemma tag_first_only:
  assumes "scan_d (c_str v) = Some (n, r)" "r = [] \<or> hd r \<noteq> CHR ''/'' \<or> scan_d (tl r) = None"
  shows "writeTrackTag n0 fcc v s
           = s\<lparr>m_mp4file := (m_mp4file s)\<lparr>calls := calls (m_mp4file s) @ [SetMetadataTrack n 0]\<rparr>\<rparr>"
    "writeDiskTag n0 fcc v s
           = s\<lparr>m_mp4file := (m_mp4file s)\<lparr>calls := calls (m_mp4file s) @ [SetMetadataDisk n 0]\<rparr>\<rparr>"
  using tag_written [OF scan_first_only [OF assms, of n0 0]] by simp_all

lemma tag_number:
  assumes "ds \<noteq> []" "\<forall>c \<in> set ds. isdigit c" "digits_value ds < 2 ^ 31"
  shows "writeTrackTag n0 fcc ds s
           = s\<lparr>m_mp4file := (m_mp4file s)\<lparr>calls := calls (m_mp4file s)
                  @ [SetMetadataTrack (digits_value ds) 0]\<rparr>\<rparr>"
    "writeDiskTag n0 fcc ds s
           = s\<lparr>m_mp4file := (m_mp4file s)\<lparr>calls := calls (m_mp4file s)
                  @ [SetMetadataDisk (digits_value ds) 0]\<rparr>\<rparr>"
proof -
  have "store_int (digits_value ds) = digits_value ds"
    using digits_value_nonneg [OF assms(2)] assms(3) by (intro store_int_id) simp_all
  then have "sscanf_d_slash_d (c_str ds) n0 0 = (1, digits_value ds, 0)"
    using scan_number [OF assms(1,2), of n0 0] by simp
  then show "writeTrackTag n0 fcc ds s
           = s\<lparr>m_mp4file := (m_mp4file s)\<lparr>calls := calls (m_mp4file s)
                  @ [SetMetadataTrack (digits_value ds) 0]\<rparr>\<rparr>"
    "writeDiskTag n0 fcc ds s
           = s\<lparr>m_mp4file := (m_mp4file s)\<lparr>calls := calls (m_mp4file s)
                  @ [SetMetadataDisk (digits_value ds) 0]\<rparr>\<rparr>"
    using tag_written [of ds n0 1 "digits_value ds" 0] by simp_all
qed

lemma tag_pair:
  assumes "ds \<noteq> []" "\<forall>c \<in> set ds. isdigit c" "digits_value ds < 2 ^ 31"
    "es \<noteq> []" "\<forall>c \<in> set es. isdigit c" "digits_value es < 2 ^ 31"
  shows "writeTrackTag n0 fcc (ds @ ''/'' @ es) s
           = s\<lparr>m_mp4file := (m_mp4file s)\<lparr>calls := calls (m_mp4file s)
                  @ [SetMetadataTrack (digits_value ds) (digits_value es)]\<rparr>\<rparr>"
    "writeDiskTag n0 fcc (ds @ ''/'' @ es) s
           = s\<lparr>m_mp4file := (m_mp4file s)\<lparr>calls := calls (m_mp4file s)
                  @ [SetMetadataDisk (digits_value ds) (digits_value es)]\<rparr>\<rparr>"
proof -
  have "store_int (digits_value ds) = digits_value ds"
    using digits_value_nonneg [OF assms(2)] assms(3) by (intro store_int_id) simp_all
  moreover have "store_int (digits_value es) = digits_value es"
    using digits_value_nonneg [OF assms(5)] assms(6) by (intro store_int_id) simp_all
  ultimately have "sscanf_d_slash_d (c_str (ds @ ''/'' @ es)) n0 0 = (2, digits_value ds, digits_value es)"
    using scan_pair [OF assms(1,2,4,5), of n0 0] by simp
  then show "writeTrackTag n0 fcc (ds @ ''/'' @ es) s
           = s\<lparr>m_mp4file := (m_mp4file s)\<lparr>calls := calls (m_mp4file s)
                  @ [SetMetadataTrack (digits_value ds) (digits_value es)]\<rparr>\<rparr>"
    "writeDiskTag n0 fcc (ds @ ''/'' @ es) s
           = s\<lparr>m_mp4file := (m_mp4file s)\<lparr>calls := calls (m_mp4file s)
                  @ [SetMetadataDisk (digits_value ds) (digits_value es)]\<rparr>\<rparr>"
    using tag_written [of "ds @ ''/'' @ es" n0 2 "digits_value ds" "digits_value es"] by simp_all
qed

lemma digits_3: "''3'' \<noteq> [] \<and> (\<forall>c \<in> set ''3''. isdigit c) \<and> digits_value ''3'' = 3"
  by (simp add: isdigit_def digits_value_def)

lemma digits_12: "''12'' \<noteq> [] \<and> (\<forall>c \<in> set ''12''. isdigit c) \<and> digits_value ''12'' = 12"
  by (simp add: isdigit_def digits_value_def)

lemma store_big: "store_int 99999999999 = 1215752191"
  by (simp add: store_int_def)

lemma digits_big:
  "''99999999999'' \<noteq> [] \<and> (\<forall>c \<in> set ''99999999999''. isdigit c)
   \<and> digits_value ''99999999999'' = 99999999999"
  by (simp add: isdigit_def digits_value_def)

lemma digits_1: "''1'' \<noteq> [] \<and> (\<forall>c \<in> set ''1''. isdigit c) \<and> digits_value ''1'' = 1"
  by (simp add: isdigit_def digits_value_def)

lemma scan_big: "sscanf_d_slash_d (c_str ''99999999999/1'') n0 0 = (2, 1215752191, 1)"
proof -
  have "store_int (digits_value ''1'') = 1"
    using digits_1 by (simp add: store_int_id)
  then show ?thesis
    using scan_pair [of "''99999999999''" "''1''" n0 0] digits_big digits_1 store_big by simp
qed

text \<open>
  C7. The value \<open>3/12\<close> appends to the container's calls the write of the pair (3, 12) and
  the value \<open>3\<close> that of (3, 0), for the track tag and for the disk tag, and nothing else of
  the sink changes. So does every value \<open>a/b\<close> and \<open>a\<close> of decimal digits, with the numbers
  they denote, as long as these fit the \<open>int\<close> they are stored in; \<open>99999999999/1\<close> writes
  what the \<open>int\<close> holds of it, (1215752191, 1). Whenever only the first integer is converted
  the pair is that integer, which is in the range of \<open>int\<close>, and 0, the value \<open>total\<close> was
  initialised with. A value with no integer at its start writes nothing: the sink is
  unchanged. None of it depends on what \<open>n\<close> held before.
\<close>

theorem writeTrackTag_pairs:
  "writeTrackTag n0 fcc ''3/12'' s
     = s\<lparr>m_mp4file := (m_mp4file s)\<lparr>calls := calls (m_mp4file s) @ [SetMetadataTrack 3 12]\<rparr>\<rparr>
   \<and> writeTrackTag n0 fcc ''3'' s
     = s\<lparr>m_mp4file := (m_mp4file s)\<lparr>calls := calls (m_mp4file s) @ [SetMetadataTrack 3 0]\<rparr>\<rparr>
   \<and> writeDiskTag n0 fcc ''3/12'' s
     = s\<lparr>m_mp4file := (m_mp4file s)\<lparr>calls := calls (m_mp4file s) @ [SetMetadataDisk 3 12]\<rparr>\<rparr>
   \<and> writeDiskTag n0 fcc ''3'' s
     = s\<lparr>m_mp4file := (m_mp4file s)\<lparr>calls := calls (m_mp4file s) @ [SetMetadataDisk 3 0]\<rparr>\<rparr>
   \<and> (ds \<noteq> [] \<and> (\<forall>c \<in> set ds. isdigit c) \<and> digits_value ds < 2 ^ 31
        \<longrightarrow> writeTrackTag n0 fcc ds s
              = s\<lparr>m_mp4file := (m_mp4file s)\<lparr>calls := calls (m_mp4file s)
                     @ [SetMetadataTrack (digits_value ds) 0]\<rparr>\<rparr>
          \<and> writeDiskTag n0 fcc ds s
              = s\<lparr>m_mp4file := (m_mp4file s)\<lparr>calls := calls (m_mp4file s)
                     @ [SetMetadataDisk (digits_value ds) 0]\<rparr>\<rparr>)
   \<and> (ds \<noteq> [] \<and> (\<forall>c \<in> set ds. isdigit c) \<and> digits_value ds < 2 ^ 31
      \<and> es \<noteq> [] \<and> (\<forall>c \<in> set es. isdigit c) \<and> digits_value es < 2 ^ 31
        \<longrightarrow> writeTrackTag n0 fcc (ds @ ''/'' @ es) s
              = s\<lparr>m_mp4file := (m_mp4file s)\<lparr>calls := calls (m_mp4file s)
                     @ [SetMetadataTrack (digits_value ds) (digits_value es)]\<rparr>\<rparr>
          \<and> writeDiskTag n0 fcc (ds @ ''/'' @ es) s
              = s\<lparr>m_mp4file := (m_mp4file s)\<lparr>calls := calls (m_mp4file s)
                     @ [SetMetadataDisk (digits_value ds) (digits_value es)]\<rparr>\<rparr>)
   \<and> writeTrackTag n0 fcc ''99999999999/1'' s
     = s\<lparr>m_mp4file := (m_mp4file s)\<lparr>calls := calls (m_mp4file s) @ [SetMetadataTrack 1215752191 1]\<rparr>\<rparr>
   \<and> writeDiskTag n0 fcc ''99999999999/1'' s
     = s\<lparr>m_mp4file := (m_mp4file s)\<lparr>calls := calls (m_mp4file s) @ [SetMetadataDisk 1215752191 1]\<rparr>\<rparr>
   \<and> (scan_d (c_str v) = Some (n, r) \<and> (r = [] \<or> hd r \<noteq> CHR ''/'' \<or> scan_d (tl r) = None)
        \<longrightarrow> - (2 ^ 31) \<le> n \<and> n < 2 ^ 31
          \<and> writeTrackTag n0 fcc v s
              = s\<lparr>m_mp4file := (m_mp4file s)\<lparr>calls := calls (m_mp4file s) @ [SetMetadataTrack n 0]\<rparr>\<rparr>
          \<and> writeDiskTag n0 fcc v s
              = s\<lparr>m_mp4file := (m_mp4file s)\<lparr>calls := calls (m_mp4file s) @ [SetMetadataDisk n 0]\<rparr>\<rparr>)
   \<and> (scan_d (c_str w) = None \<longrightarrow> writeTrackTag n0 fcc w s = s \<and> writeDiskTag n0 fcc w s = s)"
proof -
  have p: "writeTrackTag n0 fcc ''3/12'' s
             = s\<lparr>m_mp4file := (m_mp4file s)\<lparr>calls := calls (m_mp4file s) @ [SetMetadataTrack 3 12]\<rparr>\<rparr>"
    "writeDiskTag n0 fcc ''3/12'' s
             = s\<lparr>m_mp4file := (m_mp4file s)\<lparr>calls := calls (m_mp4file s) @ [SetMetadataDisk 3 12]\<rparr>\<rparr>"
    using tag_pair [of "''3''" "''12''" n0 fcc s] digits_3 digits_12 by simp_all
  have q: "writeTrackTag n0 fcc ''3'' s
             = s\<lparr>m_mp4file := (m_mp4file s)\<lparr>calls := calls (m_mp4file s) @ [SetMetadataTrack 3 0]\<rparr>\<rparr>"
    "writeDiskTag n0 fcc ''3'' s
             = s\<lparr>m_mp4file := (m_mp4file s)\<lparr>calls := calls (m_mp4file s) @ [SetMetadataDisk 3 0]\<rparr>\<rparr>"
    using tag_number [of "''3''" n0 fcc s] digits_3 by simp_all
  have b: "writeTrackTag n0 fcc ''99999999999/1'' s
             = s\<lparr>m_mp4file := (m_mp4file s)\<lparr>calls := calls (m_mp4file s) @ [SetMetadataTrack 1215752191 1]\<rparr>\<rparr>"
    "writeDiskTag n0 fcc ''99999999999/1'' s
             = s\<lparr>m_mp4file := (m_mp4file s)\<lparr>calls := calls (m_mp4file s) @ [SetMetadataDisk 1215752191 1]\<rparr>\<rparr>"
    using tag_written [OF scan_big, of n0 fcc s] by simp_all
  show ?thesis
    using p q b tag_none [of w n0 fcc s] tag_first_only [of v n r n0 fcc s]
      tag_number [of ds n0 fcc s] tag_pair [of ds es n0 fcc s] scan_d_range [of "c_str v" n r]
    by blast
qed

theorem writeTrackTag_pairs_witness:
  "calls (m_mp4file (writeTrackTag 99 ''trkn'' ''7x'' (MP4SinkBase_new ''out.m4a'' False)))
     = [Create ''out.m4a'', SetMetadataTrack 7 0]
   \<and> calls (m_mp4file (writeDiskTag 99 ''disk'' ''7x'' (MP4SinkBase_new ''out.m4a'' False)))
     = [Create ''out.m4a'', SetMetadataDisk 7 0]
   \<and> calls (m_mp4file (writeTrackTag 99 ''trkn'' ''45'' (MP4SinkBase_new ''out.m4a'' False)))
     = [Create ''out.m4a'', SetMetadataTrack 45 0]
   \<and> calls (m_mp4file (writeDiskTag 99 ''disk'' ''2/45'' (MP4SinkBase_new ''out.m4a'' False)))
     = [Create ''out.m4a'', SetMetadataDisk 2 45]
   \<and> calls (m_mp4file (writeTrackTag 99 ''trkn'' ''99999999999/1'' (MP4SinkBase_new ''out.m4a'' False)))
     = [Create ''out.m4a'', SetMetadataTrack 1215752191 1]
   \<and> writeTrackTag 99 ''trkn'' ''abc'' (MP4SinkBase_new ''out.m4a'' False)
     = MP4SinkBase_new ''out.m4a'' False
   \<and> writeDiskTag 99 ''disk'' ''/12'' (MP4SinkBase_new ''out.m4a'' False)
     = MP4SinkBase_new ''out.m4a'' False"
proof -
  have h1: "scan_d (c_str ''7x'') = Some (7, ''x'') \<and> hd ''x'' \<noteq> CHR ''/''"
    by (simp add: c_str_def scan_d_def isspace_def isdigit_def digits_value_def store_int_def)
  have h2: "scan_d (c_str ''abc'') = None"
    by (simp add: c_str_def scan_d_def isspace_def isdigit_def digits_value_def)
  have h3: "scan_d (c_str ''/12'') = None"
    by (simp add: c_str_def scan_d_def isspace_def isdigit_def digits_value_def)
  have h4: "''45'' \<noteq> [] \<and> (\<forall>c \<in> set ''45''. isdigit c) \<and> digits_value ''45'' = 45"
    by (simp add: isdigit_def digits_value_def)
  have h5: "''2'' \<noteq> [] \<and> (\<forall>c \<in> set ''2''. isdigit c) \<and> digits_value ''2'' = 2"
    by (simp add: isdigit_def digits_value_def)
  have c: "calls (m_mp4file (MP4SinkBase_new ''out.m4a'' False)) = [Create ''out.m4a'']"
    by (simp add: MP4SinkBase_new_def Let_def mp4_call_def)
  show ?thesis
    using writeTrackTag_pairs [of 99 "''trkn''" "MP4SinkBase_new ''out.m4a'' False" "''45''" "''45''" "''7x''" 7 "''x''" "''abc''"]
      writeTrackTag_pairs [of 99 "''disk''" "MP4SinkBase_new ''out.m4a'' False" "''2''" "''45''" "''7x''" 7 "''x''" "''/12''"]
      h1 h2 h3 h4 h5 c
    by simp
qed

section \<open>Gapless metadata of the AAC sink\<close>









text \<open>
  C10. With no media sample in the track the gapless block changes nothing, whatever the
  mode bits: the tag dictionary (so no \<open>iTunSMPB\<close> entry) and the container calls (so no
  track edit, no sample group description) are as before, and the base writer runs on the
  unchanged sink.
\<close>

theorem MP4Sink_writeTags_no_samples:
  assumes "trackNumberOfSamples (m_mp4file s) = 0"
  shows "MP4Sink_gapless D s = s
    \<and> m_tags (MP4Sink_gapless D s) = m_tags s
    \<and> calls (m_mp4file (MP4Sink_gapless D s)) = calls (m_mp4file s)
    \<and> MP4Sink_writeTags D base_writeTags s = base_writeTags s"
  using assms by (simp add: MP4Sink_gapless_def MP4Sink_writeTags_def)

theorem MP4Sink_writeTags_no_samples_witness:
  "MP4Sink_writeTags
      \<lparr>MODE_ITUNSMPB = 1, MODE_EDTS = 2, iTunSMPB_template = ''t'', format = (\<lambda>t ws. t)\<rparr>
      (Pair None)
      \<lparr>m_filename = ''out.m4a'',
       m_mp4file = \<lparr>calls = [], trackNumberOfSamples = 0, trackDuration = 0, closeRaises = None\<rparr>,
       m_closed = False, m_edit_start = 5000, m_edit_duration = 352800, m_tags = Map.empty,
       m_gapless_mode = 3\<rparr>
   = (None,
      \<lparr>m_filename = ''out.m4a'',
       m_mp4file = \<lparr>calls = [], trackNumberOfSamples = 0, trackDuration = 0, closeRaises = None\<rparr>,
       m_closed = False, m_edit_start = 5000, m_edit_duration = 352800, m_tags = Map.empty,
       m_gapless_mode = 3\<rparr>)"
  using MP4Sink_writeTags_no_samples [of
      "\<lparr>m_filename = ''out.m4a'',
        m_mp4file = \<lparr>calls = [], trackNumberOfSamples = 0, trackDuration = 0, closeRaises = None\<rparr>,
        m_closed = False, m_edit_start = 5000, m_edit_duration = 352800, m_tags = Map.empty,
        m_gapless_mode = 3\<rparr>"
      "\<lparr>MODE_ITUNSMPB = 1, MODE_EDTS = 2, iTunSMPB_template = ''t'', format = (\<lambda>t ws. t)\<rparr>"
      "Pair None"]
  by simp

section \<open>The AAC cookie: descriptor headers\<close>










subsection \<open>The walk does not depend on where the buffer starts\<close>












section \<open>The bit reader and the codec config\<close>

lemma byte_small: "unat (b :: byte) < 256"
  using unsigned_less [of b, where ?'a = nat] by simp

lemma foldl_bits_shift:
  "foldl (\<lambda>v x. 2 * v + of_bool x) (a :: nat) xs
     = a * 2 ^ length xs + foldl (\<lambda>v x. 2 * v + of_bool x) 0 xs"
proof (induction xs arbitrary: a)
  case Nil
  show ?case by simp
next
  case (Cons y ys)
  let ?f = "\<lambda>(v :: nat) x. 2 * v + of_bool x"
  have "foldl ?f a (y # ys) = foldl ?f (2 * a + of_bool y) ys"
    by simp
  also have "\<dots> = (2 * a + of_bool y) * 2 ^ length ys + foldl ?f 0 ys"
    by (rule Cons.IH)
  finally have l: "foldl ?f a (y # ys) = (2 * a + of_bool y) * 2 ^ length ys + foldl ?f 0 ys" .
  have "foldl ?f 0 (y # ys) = foldl ?f (of_bool y) ys"
    by simp
  also have "\<dots> = of_bool y * 2 ^ length ys + foldl ?f 0 ys"
    by (rule Cons.IH)
  finally have r: "foldl ?f 0 (y # ys) = of_bool y * 2 ^ length ys + foldl ?f 0 ys" .
  show ?case
    unfolding l r by (simp add: algebra_simps)
qed

lemma bits_value_Cons: "bits_value (x # xs) = of_bool x * 2 ^ length xs + bits_value xs"
  using foldl_bits_shift [of "of_bool x" xs] by (simp add: bits_value_def)

lemma bits_value_append: "bits_value (xs @ ys) = bits_value xs * 2 ^ length ys + bits_value ys"
  using foldl_bits_shift [of "foldl (\<lambda>v x. 2 * v + of_bool x) 0 xs" ys]
  by (simp add: bits_value_def)

lemma slice_bits:
  "take_bit k (drop_bit lo (unat (b :: byte)))
     = bits_value (map (\<lambda>i. bit b (lo + i)) (rev [0..<k]))"
proof (induction k)
  case 0
  show ?case by (simp add: bits_value_def)
next
  case (Suc k)
  have "take_bit (Suc k) (drop_bit lo (unat b))
      = 2 ^ k * of_bool (bit (drop_bit lo (unat b)) k) + take_bit k (drop_bit lo (unat b))"
    by (rule take_bit_Suc_from_most)
  also have "bit (drop_bit lo (unat b)) k = bit b (lo + k)"
    by (simp add: bit_simps)
  finally show ?case
    by (simp add: Suc.IH bits_value_Cons)
qed

lemma slice_arith:
  "bits_value (map (\<lambda>i. bit (b :: byte) (lo + i)) (rev [0..<k])) = unat b div 2 ^ lo mod 2 ^ k"
  by (simp add: slice_bits [symmetric] take_bit_eq_mod drop_bit_eq_div)

lemma length_byte_bits: "length (byte_bits b) = 8"
  by (simp add: byte_bits_def)

lemma value_byte: "bits_value (byte_bits b) = unat b"
proof -
  have "byte_bits b = map (\<lambda>i. bit b (0 + i)) (rev [0..<8])"
    by (simp add: byte_bits_def upt_rec eval_nat_numeral)
  then show ?thesis
    using slice_arith [of b 0 8] byte_small [of b] by simp
qed

lemma value_take5: "bits_value (take 5 (byte_bits b)) = unat b div 8"
proof -
  have "take 5 (byte_bits b) = map (\<lambda>i. bit b (3 + i)) (rev [0..<5])"
    by (simp add: byte_bits_def upt_rec eval_nat_numeral)
  moreover have "unat b div 8 < 32"
    using byte_small [of b] by simp
  ultimately show ?thesis
    using slice_arith [of b 3 5] by simp
qed

lemma value_drop5: "bits_value (drop 5 (byte_bits b)) = unat b mod 8"
proof -
  have "drop 5 (byte_bits b) = map (\<lambda>i. bit b (0 + i)) (rev [0..<3])"
    by (simp add: byte_bits_def upt_rec eval_nat_numeral)
  then show ?thesis
    using slice_arith [of b 0 3] by simp
qed

lemma value_take1: "bits_value (take (Suc 0) (byte_bits b)) = unat b div 128"
proof -
  have "take (Suc 0) (byte_bits b) = map (\<lambda>i. bit b (7 + i)) (rev [0..<1])"
    by (simp add: byte_bits_def upt_rec eval_nat_numeral)
  moreover have "unat b div 128 < 2"
    using byte_small [of b] by simp
  ultimately show ?thesis
    using slice_arith [of b 7 1] by simp
qed

lemma value_drop1: "bits_value (drop (Suc 0) (byte_bits b)) = unat b mod 128"
proof -
  have "drop (Suc 0) (byte_bits b) = map (\<lambda>i. bit b (0 + i)) (rev [0..<7])"
    by (simp add: byte_bits_def upt_rec eval_nat_numeral)
  then show ?thesis
    using slice_arith [of b 0 7] by simp
qed

lemma value_mid4: "bits_value (take 4 (drop (Suc 0) (byte_bits b))) = unat b div 8 mod 16"
proof -
  have "take 4 (drop (Suc 0) (byte_bits b)) = map (\<lambda>i. bit b (3 + i)) (rev [0..<4])"
    by (simp add: byte_bits_def upt_rec eval_nat_numeral)
  then show ?thesis
    using slice_arith [of b 3 4] by simp
qed

text \<open>The four reads of the decoder on a buffer, by the bytes they touch.\<close>

lemma get_objtype:
  "BitStream_get (BitStream_new (b0 # rest)) 5
     = Inr (of_nat (unat b0 div 8), \<lparr>bs_buf = b0 # rest, bs_pos = 5\<rparr>)"
  by (simp add: BitStream_get_def BitStream_new_def length_byte_bits value_take5)

lemma get_index:
  "BitStream_get \<lparr>bs_buf = b0 # b1 # rest, bs_pos = 5\<rparr> 4
     = Inr (of_nat (unat b0 mod 8 * 2 + unat b1 div 128), \<lparr>bs_buf = b0 # b1 # rest, bs_pos = 9\<rparr>)"
  by (simp add: BitStream_get_def length_byte_bits bits_value_append value_drop5 value_take1)

lemma get_channel_short:
  "BitStream_get \<lparr>bs_buf = b0 # b1 # rest, bs_pos = 9\<rparr> 4
     = Inr (of_nat (unat b1 div 8 mod 16), \<lparr>bs_buf = b0 # b1 # rest, bs_pos = 13\<rparr>)"
  by (simp add: BitStream_get_def length_byte_bits value_mid4)

lemma get_rate:
  "BitStream_get \<lparr>bs_buf = b0 # b1 # b2 # b3 # b4 # rest, bs_pos = 9\<rparr> 24
     = Inr (of_nat (unat b1 mod 128 * 2 ^ 17 + unat b2 * 2 ^ 9 + unat b3 * 2 + unat b4 div 128),
            \<lparr>bs_buf = b0 # b1 # b2 # b3 # b4 # rest, bs_pos = 33\<rparr>)"
  by (simp add: BitStream_get_def length_byte_bits bits_value_append value_drop1 value_byte
      value_take1)

lemma get_channel_long:
  "BitStream_get \<lparr>bs_buf = b0 # b1 # b2 # b3 # b4 # rest, bs_pos = 33\<rparr> 4
     = Inr (of_nat (unat b4 div 8 mod 16),
            \<lparr>bs_buf = b0 # b1 # b2 # b3 # b4 # rest, bs_pos = 37\<rparr>)"
  by (simp add: BitStream_get_def length_byte_bits value_mid4)

lemma get_past_end:
  assumes "8 * length (bs_buf bs) < bs_pos bs + n"
  shows "BitStream_get bs n = Inl OutOfRange"
  using assms by (simp add: BitStream_get_def)
lemma index_small: "unat (b0 :: byte) mod 8 * 2 + unat (b1 :: byte) div 128 < 16"
proof -
  have "unat b0 mod 8 < 8" by simp
  moreover have "unat b1 div 128 < 2" using byte_small [of b1] by simp
  ultimately show ?thesis by arith
qed

lemma word32_of_small:
  assumes "n < 16"
  shows "unat (of_nat n :: 32 word) = n" and "(of_nat n :: 32 word) = 15 \<longleftrightarrow> n = 15"
proof -
  show u: "unat (of_nat n :: 32 word) = n"
    using assms by (simp add: unat_of_nat)
  have "unat (15 :: 32 word) = 15" by simp
  then show "(of_nat n :: 32 word) = 15 \<longleftrightarrow> n = 15"
    using u by (metis of_nat_numeral)
qed

lemma parse_table:
  assumes "unat b0 mod 8 * 2 + unat b1 div 128 \<noteq> 15"
  shows "parseDecSpecificConfig (b0 # b1 # rest)
    = Inr (of_nat (unat b0 mod 8 * 2 + unat b1 div 128),
           tab ! (unat b0 mod 8 * 2 + unat b1 div 128),
           of_nat (unat b1 div 8 mod 16))"
  using assms word32_of_small [OF index_small [of b0 b1]]
  by (simp add: parseDecSpecificConfig_def get_objtype get_index get_channel_short)

lemma parse_explicit:
  assumes "unat b0 mod 8 * 2 + unat b1 div 128 = 15"
  shows "parseDecSpecificConfig (b0 # b1 # b2 # b3 # b4 # rest)
    = Inr (15,
           of_nat (unat b1 mod 128 * 2 ^ 17 + unat b2 * 2 ^ 9 + unat b3 * 2 + unat b4 div 128),
           of_nat (unat b4 div 8 mod 16))"
  using assms
  by (simp add: parseDecSpecificConfig_def get_objtype get_index get_rate get_channel_long)

lemma parse_too_short:
  assumes "length config < 2"
  shows "parseDecSpecificConfig config = Inl OutOfRange"
proof (cases config)
  case Nil
  then show ?thesis
    by (simp add: parseDecSpecificConfig_def BitStream_get_def BitStream_new_def)
next
  case (Cons b0 rest)
  then have "rest = []" using assms by simp
  then show ?thesis
    using Cons by (simp add: parseDecSpecificConfig_def get_objtype get_past_end)
qed

lemma parse_explicit_too_short:
  assumes "unat b0 mod 8 * 2 + unat b1 div 128 = 15" and "length rest < 3"
  shows "parseDecSpecificConfig (b0 # b1 # rest) = Inl OutOfRange"
  using assms
  by (simp add: parseDecSpecificConfig_def get_objtype get_index get_past_end)

text \<open>A config written for an explicit rate: the bytes, and what they decode to.\<close>

lemma byte_of_nat: "n < 256 \<Longrightarrow> unat (of_nat n :: byte) = n"
  by (simp add: unat_of_nat)

lemma rate_reassembled:
  "(v :: nat) div 2 ^ 17 * 2 ^ 17 + v div 2 ^ 9 mod 256 * 2 ^ 9 + v div 2 mod 256 * 2 + v mod 2 = v"
proof -
  have a: "v mod 512 = 2 * (v div 2 mod 256) + v mod 2"
    using mod_mult2_eq [of v 2 256] by simp
  have b: "v mod 131072 = 512 * (v div 512 mod 256) + v mod 512"
    using mod_mult2_eq [of v 512 256] by simp
  have c: "v = 131072 * (v div 131072) + v mod 131072"
    by simp
  show ?thesis
    using a b c by simp
qed

lemma parse_written:
  assumes "v < 2 ^ 24" "ot < 32" "ch < 16"
  shows "parseDecSpecificConfig
      [of_nat (ot * 8 + 7), of_nat (128 + v div 2 ^ 17), of_nat (v div 2 ^ 9 mod 256),
       of_nat (v div 2 mod 256), of_nat (v mod 2 * 128 + ch * 8)]
    = Inr (15, of_nat v, of_nat ch)"
proof -
  have hi: "v div 2 ^ 17 < 128" using assms(1) by simp
  have u0: "unat (of_nat (ot * 8 + 7) :: byte) = ot * 8 + 7"
    using assms(2) byte_of_nat [of "ot * 8 + 7"] by simp
  have u1: "unat (of_nat (128 + v div 2 ^ 17) :: byte) = 128 + v div 2 ^ 17"
    using hi byte_of_nat [of "128 + v div 2 ^ 17"] by simp
  have u2: "unat (of_nat (v div 2 ^ 9 mod 256) :: byte) = v div 2 ^ 9 mod 256"
    by (rule byte_of_nat) simp
  have u3: "unat (of_nat (v div 2 mod 256) :: byte) = v div 2 mod 256"
    by (rule byte_of_nat) simp
  have u4: "unat (of_nat (v mod 2 * 128 + ch * 8) :: byte) = v mod 2 * 128 + ch * 8"
    using assms(3) byte_of_nat [of "v mod 2 * 128 + ch * 8"] by simp
  have idx: "unat (of_nat (ot * 8 + 7) :: byte) mod 8 * 2
      + unat (of_nat (128 + v div 2 ^ 17) :: byte) div 128 = 15"
    using hi unfolding u0 u1 by simp
  have r1: "unat (of_nat (128 + v div 2 ^ 17) :: byte) mod 128 = v div 2 ^ 17"
    using hi unfolding u1 by simp
  have r4: "unat (of_nat (v mod 2 * 128 + ch * 8) :: byte) div 128 = v mod 2"
    using assms(3) unfolding u4 by simp
  have c4: "unat (of_nat (v mod 2 * 128 + ch * 8) :: byte) div 8 mod 16 = ch"
  proof -
    have "(v mod 2 * 128 + ch * 8) div 8 = v mod 2 * 16 + ch" by simp
    then show ?thesis
      using assms(3) unfolding u4 by simp
  qed
  show ?thesis
    unfolding parse_explicit [OF idx] r1 r4 c4 u2 u3
    using rate_reassembled [of v] by simp
qed

text \<open>
  C1. On a config of at least two bytes \<open>b0, b1, ...\<close> the decoder reads the 5-bit object
  type (the high five bits of \<open>b0\<close>) and then the 4-bit index: the low three bits of \<open>b0\<close>
  followed by the high bit of \<open>b1\<close>. When the index is not 15 the rate is the entry of the
  fixed table at the index (so for every index in [0,12]) and the channel configuration is
  the next four bits of \<open>b1\<close>. When the index is 15 and at least five bytes are there, the
  rate is the next 24 bits, most significant first: the low seven bits of \<open>b1\<close>, the bytes
  \<open>b2\<close> and \<open>b3\<close>, and the high bit of \<open>b4\<close>; the channel configuration is the next four
  bits of \<open>b4\<close>. Every rate \<open>v\<close> below \<open>2^24\<close>, written this way, is decoded as \<open>v\<close>. A
  config too short for these fields runs the bit reader past its end.
\<close>

theorem parseDecSpecificConfig_fields:
  "(unat b0 mod 8 * 2 + unat b1 div 128 \<noteq> 15 \<longrightarrow>
      parseDecSpecificConfig (b0 # b1 # rest)
        = Inr (of_nat (unat b0 mod 8 * 2 + unat b1 div 128),
               [96000, 88200, 64000, 48000, 44100, 32000, 24000, 22050,
                16000, 12000, 11025, 8000, 7350, 0, 0, 0] ! (unat b0 mod 8 * 2 + unat b1 div 128),
               of_nat (unat b1 div 8 mod 16)))
   \<and> (unat b0 mod 8 * 2 + unat b1 div 128 = 15 \<longrightarrow>
      parseDecSpecificConfig (b0 # b1 # b2 # b3 # b4 # rest)
        = Inr (15,
               of_nat (unat b1 mod 128 * 2 ^ 17 + unat b2 * 2 ^ 9 + unat b3 * 2 + unat b4 div 128),
               of_nat (unat b4 div 8 mod 16)))
   \<and> (v < 2 ^ 24 \<and> ot < 32 \<and> ch < 16 \<longrightarrow>
      parseDecSpecificConfig
        [of_nat (ot * 8 + 7), of_nat (128 + v div 2 ^ 17), of_nat (v div 2 ^ 9 mod 256),
         of_nat (v div 2 mod 256), of_nat (v mod 2 * 128 + ch * 8)]
        = Inr (15, of_nat v, of_nat ch))
   \<and> (length config < 2 \<longrightarrow> parseDecSpecificConfig config = Inl OutOfRange)
   \<and> (unat b0 mod 8 * 2 + unat b1 div 128 = 15 \<and> length rest < 3 \<longrightarrow>
      parseDecSpecificConfig (b0 # b1 # rest) = Inl OutOfRange)"
proof (intro conjI impI)
  assume "unat b0 mod 8 * 2 + unat b1 div 128 \<noteq> 15"
  then show "parseDecSpecificConfig (b0 # b1 # rest)
      = Inr (of_nat (unat b0 mod 8 * 2 + unat b1 div 128),
             [96000, 88200, 64000, 48000, 44100, 32000, 24000, 22050,
              16000, 12000, 11025, 8000, 7350, 0, 0, 0] ! (unat b0 mod 8 * 2 + unat b1 div 128),
             of_nat (unat b1 div 8 mod 16))"
    using parse_table [of b0 b1 rest] by (simp add: tab_def)
next
  assume "unat b0 mod 8 * 2 + unat b1 div 128 = 15"
  then show "parseDecSpecificConfig (b0 # b1 # b2 # b3 # b4 # rest)
      = Inr (15,
             of_nat (unat b1 mod 128 * 2 ^ 17 + unat b2 * 2 ^ 9 + unat b3 * 2 + unat b4 div 128),
             of_nat (unat b4 div 8 mod 16))"
    by (rule parse_explicit)
next
  assume "v < 2 ^ 24 \<and> ot < 32 \<and> ch < 16"
  then show "parseDecSpecificConfig
      [of_nat (ot * 8 + 7), of_nat (128 + v div 2 ^ 17), of_nat (v div 2 ^ 9 mod 256),
       of_nat (v div 2 mod 256), of_nat (v mod 2 * 128 + ch * 8)]
      = Inr (15, of_nat v, of_nat ch)"
    using parse_written [of v ot ch] by simp
next
  assume "length config < 2"
  then show "parseDecSpecificConfig config = Inl OutOfRange"
    by (rule parse_too_short)
next
  assume "unat b0 mod 8 * 2 + unat b1 div 128 = 15 \<and> length rest < 3"
  then show "parseDecSpecificConfig (b0 # b1 # rest) = Inl OutOfRange"
    using parse_explicit_too_short [of b0 b1 rest] by simp
qed

theorem parseDecSpecificConfig_fields_witness:
  "parseDecSpecificConfig [0x12, 0x10] = Inr (4, 44100, 2)
   \<and> parseDecSpecificConfig [0x17, 0x80, 0x5D, 0xC0, 0x10] = Inr (15, 48000, 2)
   \<and> parseDecSpecificConfig [0x12] = Inl OutOfRange
   \<and> parseDecSpecificConfig [0x17, 0x80, 0x5D, 0xC0] = Inl OutOfRange"
proof -
  have a: "parseDecSpecificConfig [0x12, 0x10] = Inr (4, 44100, 2)"
    using parseDecSpecificConfig_fields [where ?b0.0 = "0x12" and ?b1.0 = "0x10" and rest = "[]"]
    by simp
  have b: "parseDecSpecificConfig [0x17, 0x80, 0x5D, 0xC0, 0x10] = Inr (15, 48000, 2)"
    using parseDecSpecificConfig_fields [where v = 48000 and ot = 2 and ch = 2]
    by simp
  have b': "parseDecSpecificConfig [0x17, 0x80, 0x5D, 0xC0, 0x10] = Inr (15, 48000, 2)"
    using parseDecSpecificConfig_fields [where ?b0.0 = "0x17" and ?b1.0 = "0x80" and ?b2.0 = "0x5D"
        and ?b3.0 = "0xC0" and ?b4.0 = "0x10" and rest = "[]"]
    by simp
  have c: "parseDecSpecificConfig [0x12] = Inl OutOfRange"
    using parseDecSpecificConfig_fields [where config = "[0x12]"]
    by simp
  have d: "parseDecSpecificConfig [0x17, 0x80, 0x5D, 0xC0] = Inl OutOfRange"
    using parseDecSpecificConfig_fields [where ?b0.0 = "0x17" and ?b1.0 = "0x80"
        and rest = "[0x5D, 0xC0]"]
    by simp
  show ?thesis
    using a b b' c d by simp
qed

section \<open>Reading from the FLAC source\<close>

lemma drain_giveup: "m_giveup (fst (readSamples_drain s rest out)) = m_giveup s"
  by (simp add: readSamples_drain_def Let_def)

lemma drain_asbd: "m_asbd (fst (readSamples_drain s rest out)) = m_asbd s"
  by (simp add: readSamples_drain_def Let_def)

lemma drain_short:
  assumes "db_count (m_buffer s) < rest"
  shows "fst (snd (readSamples_drain s rest out)) \<noteq> 0"
proof (cases "db_count (m_buffer s) > 0")
  case True
  have "min (db_count (m_buffer s)) rest = db_count (m_buffer s)"
    using assms by (intro min_absorb1 less_imp_le)
  moreover have "rest - db_count (m_buffer s) \<noteq> 0"
    using assms by auto
  ultimately show ?thesis
    using True by (simp add: readSamples_drain_def Let_def)
next
  case False
  then have "rest \<noteq> 0" using assms by auto
  then show ?thesis
    using False by (simp add: readSamples_drain_def)
qed

lemma drain_enough:
  assumes "0 < rest" "rest \<le> db_count (m_buffer s)"
  shows "readSamples_drain s rest out
    = (s\<lparr>m_buffer := db_advance rest (m_buffer s)\<rparr>, 0,
       out @ take (unat (rest * mChannelsPerFrame (m_asbd s) * 4) div 4) (db_read (m_buffer s)))"
proof -
  have "0 < db_count (m_buffer s)"
    using assms by auto
  moreover have "min (db_count (m_buffer s)) rest = rest"
    using assms(2) by (rule min_absorb2)
  ultimately show ?thesis
    by (simp add: readSamples_drain_def Let_def)
qed

lemma loop_giveup:
  assumes "m_giveup s" "db_count (m_buffer s) < rest"
  shows "readSamples_loop s rest out = Inl (RuntimeError ''FLAC decoder error'')"
proof -
  obtain s1 rest1 out1 where d: "readSamples_drain s rest out = (s1, rest1, out1)"
    by (cases "readSamples_drain s rest out") auto
  have "rest1 \<noteq> 0"
    using drain_short [OF assms(2), of out] d by simp
  moreover have "m_giveup s1"
    using drain_giveup [of s rest out] d assms(1) by simp
  moreover have "0 < rest"
    using assms(2) by (auto simp add: word_greater_zero_iff)
  ultimately show ?thesis
    using d by (simp add: readSamples_loop.simps [of s rest out])
qed

lemma loop_enough:
  assumes "0 < rest" "rest \<le> db_count (m_buffer s)"
  shows "readSamples_loop s rest out
    = Inr (s\<lparr>m_buffer := db_advance rest (m_buffer s)\<rparr>, 0,
        out @ take (unat (rest * mChannelsPerFrame (m_asbd s) * 4) div 4) (db_read (m_buffer s)))"
  using assms(1) drain_enough [OF assms, of out]
  by (simp add: readSamples_loop.simps [of s rest out])

text \<open>
  C5, as amended. With the giveup flag set, a call that needs more than the buffer holds
  (its adjusted count, in 32 bits, is above the number of buffered frames) throws the
  decoder error. A call whose adjusted count is 0 returns 0, and a call that the buffered
  frames satisfy returns them and throws nothing: the flag is tested only when more has to
  be decoded.
\<close>

theorem readSamples_giveup:
  assumes "m_giveup s"
  shows "(adjustSamplesToRead B s n \<noteq> 0
          \<and> db_count (m_buffer s) < of_nat (adjustSamplesToRead B s n)
        \<longrightarrow> readSamples B s n = Inl (RuntimeError ''FLAC decoder error''))
    \<and> (adjustSamplesToRead B s n = 0 \<longrightarrow> readSamples B s n = Inr (0, [], s))
    \<and> (0 < (of_nat (adjustSamplesToRead B s n) :: 32 word)
          \<and> of_nat (adjustSamplesToRead B s n) \<le> db_count (m_buffer s)
        \<longrightarrow> readSamples B s n
            = Inr (adjustSamplesToRead B s n,
                   take (unat ((of_nat (adjustSamplesToRead B s n) :: 32 word)
                          * mChannelsPerFrame (m_asbd s) * 4) div 4) (db_read (m_buffer s)),
                   addSamplesRead B (adjustSamplesToRead B s n)
                     (s\<lparr>m_buffer := db_advance (of_nat (adjustSamplesToRead B s n)) (m_buffer s)\<rparr>)))"
proof (intro conjI impI)
  assume "adjustSamplesToRead B s n \<noteq> 0
      \<and> db_count (m_buffer s) < of_nat (adjustSamplesToRead B s n)"
  then show "readSamples B s n = Inl (RuntimeError ''FLAC decoder error'')"
    using loop_giveup [OF assms, of "of_nat (adjustSamplesToRead B s n)" "[]"]
    by (simp add: readSamples_def Let_def)
next
  assume "adjustSamplesToRead B s n = 0"
  then show "readSamples B s n = Inr (0, [], s)"
    by (simp add: readSamples_def)
next
  assume h: "0 < (of_nat (adjustSamplesToRead B s n) :: 32 word)
      \<and> of_nat (adjustSamplesToRead B s n) \<le> db_count (m_buffer s)"
  have "adjustSamplesToRead B s n \<noteq> 0"
  proof
    assume "adjustSamplesToRead B s n = 0"
    then have "(of_nat (adjustSamplesToRead B s n) :: 32 word) = 0" by simp
    with h show False by simp
  qed
  then show "readSamples B s n
      = Inr (adjustSamplesToRead B s n,
             take (unat ((of_nat (adjustSamplesToRead B s n) :: 32 word)
                    * mChannelsPerFrame (m_asbd s) * 4) div 4) (db_read (m_buffer s)),
             addSamplesRead B (adjustSamplesToRead B s n)
               (s\<lparr>m_buffer := db_advance (of_nat (adjustSamplesToRead B s n)) (m_buffer s)\<rparr>))"
    using h loop_enough [of "of_nat (adjustSamplesToRead B s n)" s "[]"]
    by (simp add: readSamples_def Let_def)
qed

theorem readSamples_giveup_witness:
  "readSamples whole_stream
      \<lparr>m_giveup = True,
       m_asbd = \<lparr>mSampleRate = 44100, mChannelsPerFrame = 2, mBitsPerChannel = 16\<rparr>,
       m_buffer = \<lparr>db_channels = 2, db_frames = [[1, 2], [3, 4]]\<rparr>,
       m_pending = [FrameStep \<lparr>header = \<lparr>blocksize = 4, sample_rate = 44100, channels = 2,
                      bits_per_sample = 16\<rparr>, buffer = ramp\<rparr>]\<rparr> 3
     = Inl (RuntimeError ''FLAC decoder error'')
   \<and> readSamples whole_stream
      \<lparr>m_giveup = True,
       m_asbd = \<lparr>mSampleRate = 44100, mChannelsPerFrame = 2, mBitsPerChannel = 16\<rparr>,
       m_buffer = \<lparr>db_channels = 2, db_frames = [[1, 2], [3, 4]]\<rparr>,
       m_pending = []\<rparr> 0
     = Inr (0, [],
        \<lparr>m_giveup = True,
         m_asbd = \<lparr>mSampleRate = 44100, mChannelsPerFrame = 2, mBitsPerChannel = 16\<rparr>,
         m_buffer = \<lparr>db_channels = 2, db_frames = [[1, 2], [3, 4]]\<rparr>,
         m_pending = []\<rparr>)
   \<and> readSamples whole_stream
      \<lparr>m_giveup = True,
       m_asbd = \<lparr>mSampleRate = 44100, mChannelsPerFrame = 2, mBitsPerChannel = 16\<rparr>,
       m_buffer = \<lparr>db_channels = 2, db_frames = [[1, 2], [3, 4]]\<rparr>,
       m_pending = []\<rparr> 1
     = Inr (1, [1, 2],
        \<lparr>m_giveup = True,
         m_asbd = \<lparr>mSampleRate = 44100, mChannelsPerFrame = 2, mBitsPerChannel = 16\<rparr>,
         m_buffer = \<lparr>db_channels = 2, db_frames = [[3, 4]]\<rparr>,
         m_pending = []\<rparr>)"
proof -
  let ?a = "\<lparr>m_giveup = True,
       m_asbd = \<lparr>mSampleRate = 44100, mChannelsPerFrame = 2, mBitsPerChannel = 16\<rparr>,
       m_buffer = \<lparr>db_channels = 2, db_frames = [[1, 2], [3, 4]]\<rparr>,
       m_pending = [FrameStep \<lparr>header = \<lparr>blocksize = 4, sample_rate = 44100, channels = 2,
                      bits_per_sample = 16\<rparr>, buffer = ramp\<rparr>]\<rparr>"
  let ?b = "\<lparr>m_giveup = True,
       m_asbd = \<lparr>mSampleRate = 44100, mChannelsPerFrame = 2, mBitsPerChannel = 16\<rparr>,
       m_buffer = \<lparr>db_channels = 2, db_frames = [[1, 2], [3, 4]]\<rparr>,
       m_pending = []\<rparr>"
  show ?thesis
    using readSamples_giveup [of ?a whole_stream 3] readSamples_giveup [of ?b whole_stream 0]
      readSamples_giveup [of ?b whole_stream 1]
    by (simp add: whole_stream_def db_count_def db_read_def db_advance_def)
qed

text \<open>
  C5 as stated fails: with the flag set, a request that the buffered frames satisfy
  completes normally and returns samples, and a request for no samples returns 0.
\<close>

theorem readSamples_giveup_counterexample:
  "m_giveup \<lparr>m_giveup = True,
       m_asbd = \<lparr>mSampleRate = 44100, mChannelsPerFrame = 2, mBitsPerChannel = 16\<rparr>,
       m_buffer = \<lparr>db_channels = 2, db_frames = [[1, 2], [3, 4], [5, 6], [7, 8]]\<rparr>,
       m_pending = []\<rparr>
   \<and> readSamples whole_stream
      \<lparr>m_giveup = True,
       m_asbd = \<lparr>mSampleRate = 44100, mChannelsPerFrame = 2, mBitsPerChannel = 16\<rparr>,
       m_buffer = \<lparr>db_channels = 2, db_frames = [[1, 2], [3, 4], [5, 6], [7, 8]]\<rparr>,
       m_pending = []\<rparr> 2
     = Inr (2, [1, 2, 3, 4],
        \<lparr>m_giveup = True,
         m_asbd = \<lparr>mSampleRate = 44100, mChannelsPerFrame = 2, mBitsPerChannel = 16\<rparr>,
         m_buffer = \<lparr>db_channels = 2, db_frames = [[5, 6], [7, 8]]\<rparr>,
         m_pending = []\<rparr>)
   \<and> readSamples whole_stream
      \<lparr>m_giveup = True,
       m_asbd = \<lparr>mSampleRate = 44100, mChannelsPerFrame = 2, mBitsPerChannel = 16\<rparr>,
       m_buffer = \<lparr>db_channels = 2, db_frames = []\<rparr>,
       m_pending = []\<rparr> 0
     = Inr (0, [],
        \<lparr>m_giveup = True,
         m_asbd = \<lparr>mSampleRate = 44100, mChannelsPerFrame = 2, mBitsPerChannel = 16\<rparr>,
         m_buffer = \<lparr>db_channels = 2, db_frames = []\<rparr>,
         m_pending = []\<rparr>)"
  by (simp add: readSamples_def whole_stream_def readSamples_loop.simps readSamples_drain_def
      db_count_def db_read_def db_advance_def Let_def)

section \<open>The write callback\<close>

lemma writeCallback_mismatch:
  assumes "channels (header f) \<noteq> mChannelsPerFrame (m_asbd s)
      \<or> real (unat (sample_rate (header f))) \<noteq> mSampleRate (m_asbd s)
      \<or> bits_per_sample (header f) \<noteq> mBitsPerChannel (m_asbd s)"
  shows "writeCallback f s = (WRITE_STATUS_ABORT, s)"
  using assms by (auto simp add: writeCallback_def Let_def)

lemma writeCallback_match:
  assumes "channels (header f) = mChannelsPerFrame (m_asbd s)"
    "real (unat (sample_rate (header f))) = mSampleRate (m_asbd s)"
    "bits_per_sample (header f) = mBitsPerChannel (m_asbd s)"
  shows "writeCallback f s
    = (WRITE_STATUS_CONTINUE,
       s\<lparr>m_buffer := (m_buffer s)\<lparr>db_frames := db_frames (m_buffer s)
          @ map (\<lambda>i. map (\<lambda>n. push_bit (unat (32 - bits_per_sample (header f))) (buffer f n i))
                           [0..<unat (channels (header f))])
                [0..<unat (blocksize (header f))]\<rparr>\<rparr>)"
  using assms by (simp add: writeCallback_def Let_def db_commit_def)

lemma process_single_mismatch:
  assumes "m_pending s = FrameStep f # steps"
    and "channels (header f) \<noteq> mChannelsPerFrame (m_asbd s)
      \<or> real (unat (sample_rate (header f))) \<noteq> mSampleRate (m_asbd s)
      \<or> bits_per_sample (header f) \<noteq> mBitsPerChannel (m_asbd s)"
  shows "fst (stream_decoder_process_single s) = False"
proof -
  have "writeCallback f (s\<lparr>m_pending := steps\<rparr>) = (WRITE_STATUS_ABORT, s\<lparr>m_pending := steps\<rparr>)"
    using assms(2) by (intro writeCallback_mismatch) simp
  then show ?thesis
    using assms(1) by (simp add: stream_decoder_process_single_def)
qed

lemma loop_mismatch:
  assumes "\<not> m_giveup s" "db_count (m_buffer s) < rest" "m_pending s = FrameStep f # steps"
    and "channels (header f) \<noteq> mChannelsPerFrame (m_asbd s)
      \<or> real (unat (sample_rate (header f))) \<noteq> mSampleRate (m_asbd s)
      \<or> bits_per_sample (header f) \<noteq> mBitsPerChannel (m_asbd s)"
  shows "readSamples_loop s rest out
    = Inl (RuntimeError ''m_module.stream_decoder_process_single(m_decoder.get())'')"
proof -
  obtain s1 rest1 out1 where d: "readSamples_drain s rest out = (s1, rest1, out1)"
    by (cases "readSamples_drain s rest out") auto
  have "rest1 \<noteq> 0"
    using drain_short [OF assms(2), of out] d by simp
  moreover have "\<not> m_giveup s1"
    using drain_giveup [of s rest out] d assms(1) by simp
  moreover have "0 < rest"
    using assms(2) by (auto simp add: word_greater_zero_iff)
  moreover have p1: "m_pending s1 = FrameStep f # steps"
    using drain_pending [of s rest out] d assms(3) by simp
  moreover have "stream_decoder_get_state s1 \<noteq> END_OF_STREAM"
    using p1 by (simp add: stream_decoder_get_state_def)
  moreover have "m_asbd s1 = m_asbd s"
    using drain_asbd [of s rest out] d by simp
  then have "fst (stream_decoder_process_single s1) = False"
    using assms(4) by (intro process_single_mismatch [OF p1]) simp
  then obtain s2 where "stream_decoder_process_single s1 = (False, s2)"
    by (cases "stream_decoder_process_single s1") auto
  ultimately show ?thesis
    using d by (simp add: readSamples_loop.simps [of s rest out])
qed

lemma shift_amount:
  assumes "b \<le> (32 :: 32 word)"
  shows "unat (32 - b) = 32 - unat b"
  using assms by (simp add: unat_sub)

text \<open>
  C6. A frame whose channel count, sample rate or bit depth differs from the stream's makes
  the write callback return the abort status and leave the source as it is, whatever its
  other fields; when that frame is the next thing the decoder delivers and \<open>readSamples\<close>
  has to decode (flag not set, more requested than buffered), the decode step fails and
  \<open>readSamples\<close> throws. A frame that matches in all three is accepted: \<open>blocksize\<close>
  frames are committed to the buffer, frame \<open>i\<close> holding for each channel \<open>n\<close> the sample
  \<open>buffer[n][i]\<close> shifted left by 32 - bit depth.
\<close>

theorem writeCallback_checks:
  "((channels (header f) \<noteq> mChannelsPerFrame (m_asbd s)
      \<or> real (unat (sample_rate (header f))) \<noteq> mSampleRate (m_asbd s)
      \<or> bits_per_sample (header f) \<noteq> mBitsPerChannel (m_asbd s))
     \<longrightarrow> writeCallback f s = (WRITE_STATUS_ABORT, s)
       \<and> (\<not> m_giveup s \<and> adjustSamplesToRead B s k \<noteq> 0
            \<and> db_count (m_buffer s) < of_nat (adjustSamplesToRead B s k)
            \<and> m_pending s = FrameStep f # steps
          \<longrightarrow> readSamples B s k
              = Inl (RuntimeError ''m_module.stream_decoder_process_single(m_decoder.get())'')))
   \<and> (channels (header f) = mChannelsPerFrame (m_asbd s)
      \<and> real (unat (sample_rate (header f))) = mSampleRate (m_asbd s)
      \<and> bits_per_sample (header f) = mBitsPerChannel (m_asbd s)
     \<longrightarrow> writeCallback f s
         = (WRITE_STATUS_CONTINUE,
            s\<lparr>m_buffer := (m_buffer s)\<lparr>db_frames := db_frames (m_buffer s)
               @ map (\<lambda>i. map (\<lambda>n. push_bit (unat (32 - bits_per_sample (header f))) (buffer f n i))
                                [0..<unat (channels (header f))])
                     [0..<unat (blocksize (header f))]\<rparr>\<rparr>)
       \<and> (bits_per_sample (header f) \<le> 32
          \<longrightarrow> unat (32 - bits_per_sample (header f)) = 32 - unat (bits_per_sample (header f))))"
proof (intro conjI impI)
  assume m: "channels (header f) \<noteq> mChannelsPerFrame (m_asbd s)
      \<or> real (unat (sample_rate (header f))) \<noteq> mSampleRate (m_asbd s)
      \<or> bits_per_sample (header f) \<noteq> mBitsPerChannel (m_asbd s)"
  then show "writeCallback f s = (WRITE_STATUS_ABORT, s)"
    by (rule writeCallback_mismatch)
  assume "\<not> m_giveup s \<and> adjustSamplesToRead B s k \<noteq> 0
      \<and> db_count (m_buffer s) < of_nat (adjustSamplesToRead B s k)
      \<and> m_pending s = FrameStep f # steps"
  then show "readSamples B s k
      = Inl (RuntimeError ''m_module.stream_decoder_process_single(m_decoder.get())'')"
    using loop_mismatch [of s "of_nat (adjustSamplesToRead B s k)" f steps "[]"] m
    by (simp add: readSamples_def Let_def)
next
  assume "channels (header f) = mChannelsPerFrame (m_asbd s)
      \<and> real (unat (sample_rate (header f))) = mSampleRate (m_asbd s)
      \<and> bits_per_sample (header f) = mBitsPerChannel (m_asbd s)"
  then show "writeCallback f s
      = (WRITE_STATUS_CONTINUE,
         s\<lparr>m_buffer := (m_buffer s)\<lparr>db_frames := db_frames (m_buffer s)
            @ map (\<lambda>i. map (\<lambda>n. push_bit (unat (32 - bits_per_sample (header f))) (buffer f n i))
                             [0..<unat (channels (header f))])
                  [0..<unat (blocksize (header f))]\<rparr>\<rparr>)"
    using writeCallback_match [of f s] by simp
next
  assume "bits_per_sample (header f) \<le> 32"
  then show "unat (32 - bits_per_sample (header f)) = 32 - unat (bits_per_sample (header f))"
    by (rule shift_amount)
qed

theorem writeCallback_checks_witness:
  "readSamples whole_stream
      \<lparr>m_giveup = False,
       m_asbd = \<lparr>mSampleRate = 44100, mChannelsPerFrame = 2, mBitsPerChannel = 16\<rparr>,
       m_buffer = \<lparr>db_channels = 2, db_frames = [[1, 2]]\<rparr>,
       m_pending = [FrameStep \<lparr>header = \<lparr>blocksize = 2, sample_rate = 44100, channels = 1,
                      bits_per_sample = 16\<rparr>, buffer = ramp\<rparr>]\<rparr> 3
     = Inl (RuntimeError ''m_module.stream_decoder_process_single(m_decoder.get())'')
   \<and> writeCallback
        \<lparr>header = \<lparr>blocksize = 2, sample_rate = 44100, channels = 2, bits_per_sample = 16\<rparr>,
         buffer = ramp\<rparr>
        \<lparr>m_giveup = False,
         m_asbd = \<lparr>mSampleRate = 44100, mChannelsPerFrame = 2, mBitsPerChannel = 16\<rparr>,
         m_buffer = \<lparr>db_channels = 2, db_frames = [[1, 2]]\<rparr>,
         m_pending = []\<rparr>
     = (WRITE_STATUS_CONTINUE,
        \<lparr>m_giveup = False,
         m_asbd = \<lparr>mSampleRate = 44100, mChannelsPerFrame = 2, mBitsPerChannel = 16\<rparr>,
         m_buffer = \<lparr>db_channels = 2,
           db_frames = [[1, 2], [0, 0x10000], [0xA0000, 0xB0000]]\<rparr>,
         m_pending = []\<rparr>)"
proof -
  let ?bad = "\<lparr>header = \<lparr>blocksize = 2, sample_rate = 44100, channels = 1,
                      bits_per_sample = 16\<rparr>, buffer = ramp\<rparr>"
  let ?good = "\<lparr>header = \<lparr>blocksize = 2, sample_rate = 44100, channels = 2,
                      bits_per_sample = 16\<rparr>, buffer = ramp\<rparr>"
  let ?a = "\<lparr>m_giveup = False,
       m_asbd = \<lparr>mSampleRate = 44100, mChannelsPerFrame = 2, mBitsPerChannel = 16\<rparr>,
       m_buffer = \<lparr>db_channels = 2, db_frames = [[1, 2]]\<rparr>,
       m_pending = [FrameStep ?bad]\<rparr>"
  let ?b = "\<lparr>m_giveup = False,
       m_asbd = \<lparr>mSampleRate = 44100, mChannelsPerFrame = 2, mBitsPerChannel = 16\<rparr>,
       m_buffer = \<lparr>db_channels = 2, db_frames = [[1, 2]]\<rparr>,
       m_pending = []\<rparr>"
  have u: "[0..<2] = [0, Suc 0]"
    by (simp add: upt_rec)
  have a: "readSamples whole_stream ?a 3
      = Inl (RuntimeError ''m_module.stream_decoder_process_single(m_decoder.get())'')"
    using writeCallback_checks [of ?bad ?a whole_stream 3 "[]"]
    by (simp add: whole_stream_def db_count_def)
  have b: "writeCallback ?good ?b
      = (WRITE_STATUS_CONTINUE,
        \<lparr>m_giveup = False,
         m_asbd = \<lparr>mSampleRate = 44100, mChannelsPerFrame = 2, mBitsPerChannel = 16\<rparr>,
         m_buffer = \<lparr>db_channels = 2,
           db_frames = [[1, 2], [0, 0x10000], [0xA0000, 0xB0000]]\<rparr>,
         m_pending = []\<rparr>)"
    using writeCallback_checks [of ?good ?b whole_stream 0 "[]"]
    by (simp add: u ramp_def push_bit_eq_mult)
  show ?thesis
    using a b by simp
qed

end
